theory Spec2Isabelle
  imports Complex_Main "HOL-Library.Multiset"
begin

section \<open>Strings and the regular expressions of the route\<close>

text \<open>
  The analysis lives in one file, the API route (\<^verbatim>\<open>validateFeedXML\<close> and \<^verbatim>\<open>POST\<close>).
  A JavaScript string is modelled as a \<^typ>\<open>string\<close>: one \<^typ>\<open>char\<close> per UTF-16 code
  unit, for the code units below 256. \<^verbatim>\<open>length\<close> therefore counts what
  \<^verbatim>\<open>String.prototype.length\<close> counts.
\<close>

definition dquote :: char where
  "dquote = CHR 0x22"

definition squote :: char where
  "squote = CHR 0x27"

text \<open>\<^verbatim>\<open>s.startsWith(p)\<close> and \<^verbatim>\<open>s.includes(p)\<close> (both case-sensitive).\<close>

fun String_startsWith :: "string \<Rightarrow> string \<Rightarrow> bool" where
  "String_startsWith s [] = True"
| "String_startsWith [] (p # ps) = False"
| "String_startsWith (c # cs) (p # ps) = (c = p \<and> String_startsWith cs ps)"

fun String_includes :: "string \<Rightarrow> string \<Rightarrow> bool" where
  "String_includes [] p = (p = [])"
| "String_includes (c # cs) p = (String_startsWith (c # cs) p \<or> String_includes cs p)"

text \<open>
  \<^verbatim>\<open>s.trim()\<close> removes white space and line terminators from both ends. Below 256
  these are TAB, LF, VT, FF, CR, SPACE and the no-break space U+00A0.
\<close>

definition isWhiteSpace :: "char \<Rightarrow> bool" where
  "isWhiteSpace c =
     (c \<in> set [CHR 0x09, CHR 0x0A, CHR 0x0B, CHR 0x0C, CHR 0x0D, CHR 0x20, CHR 0xA0])"

definition String_trim :: "string \<Rightarrow> string" where
  "String_trim s = rev (dropWhile isWhiteSpace (rev (dropWhile isWhiteSpace s)))"

text \<open>
  Every regular expression of the route that carries the \<^verbatim>\<open>i\<close> flag has an ASCII
  pattern, so that a code unit matches a pattern character exactly when both are equal
  after folding \<^verbatim>\<open>A\<close>..\<^verbatim>\<open>Z\<close> to lower case. \<open>ci_prefix p s\<close> matches the literal
  \<open>p\<close> at the start of \<open>s\<close> without regard to case, and returns the matched text
  (in the case \<open>s\<close> has it) and the rest of \<open>s\<close>.
\<close>

definition lower :: "char \<Rightarrow> char" where
  "lower c =
     (case map_of (zip ''ABCDEFGHIJKLMNOPQRSTUVWXYZ'' ''abcdefghijklmnopqrstuvwxyz'') c of
        None \<Rightarrow> c
      | Some l \<Rightarrow> l)"

fun ci_prefix :: "string \<Rightarrow> string \<Rightarrow> (string \<times> string) option" where
  "ci_prefix [] s = Some ([], s)"
| "ci_prefix (p # ps) [] = None"
| "ci_prefix (p # ps) (c # cs) =
     (if lower c = lower p
      then (case ci_prefix ps cs of None \<Rightarrow> None | Some (m, r) \<Rightarrow> Some (c # m, r))
      else None)"

text \<open>
  \<^verbatim>\<open>[^>]*>\<close> at the start of \<open>s\<close>: the run of characters other than \<^verbatim>\<open>>\<close>, then
  the \<^verbatim>\<open>>\<close>. The result is the run and what follows the \<^verbatim>\<open>>\<close>; there is no match
  when \<open>s\<close> has no \<^verbatim>\<open>>\<close>.
\<close>

fun upto_gt :: "string \<Rightarrow> (string \<times> string) option" where
  "upto_gt [] = None"
| "upto_gt (c # cs) =
     (if c = CHR ''>'' then Some ([], cs)
      else (case upto_gt cs of None \<Rightarrow> None | Some (a, r) \<Rightarrow> Some (c # a, r)))"

text \<open>
  \<^verbatim>\<open>[\s\S]*?\<close> followed by the literal \<open>lit\<close> (case-insensitive): the shortest text
  up to the first occurrence of \<open>lit\<close>. The result is that text and what follows \<open>lit\<close>.
\<close>

fun lazy_until :: "string \<Rightarrow> string \<Rightarrow> (string \<times> string) option" where
  "lazy_until lit [] = (if lit = [] then Some ([], []) else None)"
| "lazy_until lit (c # cs) =
     (case ci_prefix lit (c # cs) of
        Some (m, r) \<Rightarrow> Some ([], r)
      | None \<Rightarrow> (case lazy_until lit cs of None \<Rightarrow> None | Some (a, r) \<Rightarrow> Some (c # a, r)))"

text \<open>
  An anchored matcher takes the text at the current position and returns what it
  captured and the text after the match. \<open>tag_open name\<close> is the expression
  \<^verbatim>\<open>/<name[^>]*>/i\<close> (\<open>name\<close> includes the \<^verbatim>\<open><\<close>) and captures the matched text;
  \<open>element name close\<close> is \<^verbatim>\<open>/<name[^>]*>([\s\S]*?)<\/name>/i\<close> and captures group 1.
\<close>

definition tag_open :: "string \<Rightarrow> string \<Rightarrow> (string \<times> string) option" where
  "tag_open name s =
     (case ci_prefix name s of
        None \<Rightarrow> None
      | Some (m, s') \<Rightarrow>
          (case upto_gt s' of
             None \<Rightarrow> None
           | Some (a, r) \<Rightarrow> Some (m @ a @ ''>'', r)))"

definition element :: "string \<Rightarrow> string \<Rightarrow> string \<Rightarrow> (string \<times> string) option" where
  "element name close s =
     (case tag_open name s of
        None \<Rightarrow> None
      | Some (m, r) \<Rightarrow> lazy_until close r)"

text \<open>
  \<^verbatim>\<open>s.match(re)\<close> for an expression without the \<^verbatim>\<open>g\<close> flag tries the expression at
  every position from the left; \<^verbatim>\<open>s.matchAll(re)\<close> with the \<^verbatim>\<open>g\<close> flag resumes after
  each match. No expression of the route matches the empty string, so the text after a
  match is always shorter; the last branch of \<open>regex_matchAll\<close> is there for totality.
\<close>

fun regex_exec :: "(string \<Rightarrow> ('a \<times> string) option) \<Rightarrow> string \<Rightarrow> ('a \<times> string) option" where
  "regex_exec m [] = m []"
| "regex_exec m (c # cs) = (case m (c # cs) of Some r \<Rightarrow> Some r | None \<Rightarrow> regex_exec m cs)"

function regex_matchAll :: "(string \<Rightarrow> ('a \<times> string) option) \<Rightarrow> string \<Rightarrow> 'a list" where
  "regex_matchAll m s =
     (case regex_exec m s of
        None \<Rightarrow> []
      | Some (r, rest) \<Rightarrow>
          if length rest < length s then r # regex_matchAll m rest else [r])"
  by pat_completeness auto
termination
  by (relation "measure (\<lambda>(m, s). length s)") auto

declare regex_matchAll.simps [simp del]

text \<open>Template literals print a count in decimal.\<close>

function string_of_nat :: "nat \<Rightarrow> string" where
  "string_of_nat n =
     (if n < 10 then [char_of (48 + n)]
      else string_of_nat (n div 10) @ [char_of (48 + n mod 10)])"
  by pat_completeness auto
termination
  by (relation "measure id") auto

declare string_of_nat.simps [simp del]


section \<open>The structural validator\<close>

record validation =
  isValid :: bool
  errors :: "string list"

text \<open>The loop over the \<^verbatim>\<open><item>\<close> elements; \<open>itemCount\<close> numbers them from 1.\<close>

fun item_errors :: "nat \<Rightarrow> string list \<Rightarrow> string list" where
  "item_errors itemCount [] = []"
| "item_errors itemCount (itemContent # rest) =
     (let itemCount' = itemCount + 1;
          hasItemTitle = regex_exec (tag_open ''<title'') itemContent;
          hasItemDescription = regex_exec (tag_open ''<description'') itemContent
      in (if hasItemTitle = None \<and> hasItemDescription = None
          then [''RSS item #'' @ string_of_nat itemCount' @
                '' missing required <title> or <description> element'']
          else [])
         @ item_errors itemCount' rest)"

definition channel_errors :: "string \<Rightarrow> string \<Rightarrow> string list" where
  "channel_errors xmlContent channelContent =
     (case regex_exec (element ''<title'' ''</title>'') channelContent of
        None \<Rightarrow> [''RSS feed missing required <title> element in <channel>'']
      | Some (t, r) \<Rightarrow>
          if t = [] \<or> String_trim t = []
          then [''RSS feed <title> element in <channel> is empty''] else [])
     @ (case regex_exec (tag_open ''<link'') channelContent of
          None \<Rightarrow> [''RSS feed missing required <link> element in <channel>'']
        | Some r \<Rightarrow> [])
     @ (case regex_exec (tag_open ''<item'') xmlContent of
          None \<Rightarrow> [''RSS feed should contain at least one <item> element'']
        | Some r \<Rightarrow> item_errors 0 (regex_matchAll (element ''<item'' ''</item>'') xmlContent))"

definition rss_errors :: "string \<Rightarrow> string list" where
  \<open>rss_errors xmlContent =
     (case regex_exec (tag_open ''<rss'') xmlContent of
        None \<Rightarrow> []
      | Some (rssMatch, r) \<Rightarrow>
          if \<not> String_includes rssMatch ''version=''
          then [''RSS feed should declare version attribute (e.g., version="2.0")'']
          else [])
     @ (let hasChannel =
              (String_includes xmlContent ''<channel>'' \<or> String_includes xmlContent ''<channel '')
        in (if \<not> hasChannel then [''RSS feed missing required <channel> element''] else [])
           @ (case regex_exec (element ''<channel'' ''</channel>'') xmlContent of
                Some (channelContent, r) \<Rightarrow> channel_errors xmlContent channelContent
              | None \<Rightarrow>
                  if hasChannel
                  then [''RSS feed has <channel> tag but content could not be parsed'']
                  else []))\<close>

definition atom_errors :: "string \<Rightarrow> string list" where
  "atom_errors xmlContent =
     (if regex_exec (tag_open ''<title'') xmlContent = None
      then [''Atom feed missing required <title> element in <feed>''] else [])
     @ (if regex_exec (tag_open ''<id'') xmlContent = None
        then [''Atom feed missing required <id> element in <feed>''] else [])
     @ (if regex_exec (tag_open ''<updated'') xmlContent = None
        then [''Atom feed missing required <updated> element in <feed>''] else [])
     @ (if regex_exec (tag_open ''<entry'') xmlContent = None
        then [''Atom feed should contain at least one <entry> element''] else [])"

definition filesize_errors :: "string \<Rightarrow> string list" where
  "filesize_errors xmlContent =
     (let mediaContentMatches = regex_matchAll (tag_open ''<media:content'') xmlContent;
          filesizeErrorCount =
            length (filter (\<lambda>m. String_includes m ''filesize='') mediaContentMatches)
      in if filesizeErrorCount > 0
         then [''Unexpected filesize attribute on media:content element ('' @
               string_of_nat filesizeErrorCount @ '' occurrence'' @
               (if filesizeErrorCount > 1 then ''s'' else '''') @ '')'']
         else [])"

definition atom_namespace :: string where
  \<open>atom_namespace = ''xmlns="http://www.w3.org/2005/Atom"''\<close>

text \<open>
  \<^verbatim>\<open>validateFeedXML(xmlContent, url)\<close>: the body of its \<^verbatim>\<open>try\<close> block. The tag counts
  \<^verbatim>\<open>openTags\<close> and \<^verbatim>\<open>closeTags\<close> are computed by the source and never read, so they
  are left out.
\<close>

definition validateFeedXML :: "string \<Rightarrow> string \<Rightarrow> validation" where
  "validateFeedXML xmlContent url =
     (if \<not> String_startsWith (String_trim xmlContent) ''<?xml''
         \<and> \<not> String_startsWith (String_trim xmlContent) ''<rss''
         \<and> \<not> String_startsWith (String_trim xmlContent) ''<feed''
      then \<lparr>isValid = False, errors = [''Feed does not appear to be valid XML'']\<rparr>
      else
        (let errors =
           (if String_includes xmlContent ''<rss'' \<or> String_includes xmlContent ''<channel>''
            then rss_errors xmlContent
            else if String_includes xmlContent ''<feed''
                    \<and> String_includes xmlContent atom_namespace
            then atom_errors xmlContent
            else [''Feed does not appear to be a valid RSS 2.0 or Atom feed''])
           @ filesize_errors xmlContent
         in \<lparr>isValid = (length errors = 0), errors = errors\<rparr>))"

text \<open>
  The \<^verbatim>\<open>catch\<close> block of \<^verbatim>\<open>validateFeedXML\<close>: whatever violations were collected
  when the exception was raised, one more for the exception's message, and an invalid
  outcome.
\<close>

definition validateFeedXML_catch :: "string list \<Rightarrow> string \<Rightarrow> validation" where
  "validateFeedXML_catch errs message =
     \<lparr>isValid = False, errors = errs @ [''XML validation error: '' @ message]\<rparr>"

section \<open>Numbers\<close>

text \<open>
  A JavaScript number is an IEEE 754 double. A finite double is modelled by the rational
  it denotes, and an arithmetic operation by the exact operation followed by \<open>fl\<close>,
  rounding to the nearest number with a 53-bit significand, ties to the even one. The
  exponent is not bounded: the numbers of the frequency estimate are quotients of
  integers below \<open>2^55\<close> by integers below \<open>2^32\<close> and their reciprocals up to 30
  times, far inside the range of normal doubles, so neither overflow nor gradual
  underflow can occur. \<open>bitlen n\<close> is the number of binary digits of \<open>n\<close>, and
  \<open>ilog2 x\<close> the exponent \<open>k\<close> with \<open>2^k \<le> x < 2^(k+1)\<close>.
\<close>

definition pow2 :: "int \<Rightarrow> rat" where
  "pow2 k = (if 0 \<le> k then 2 ^ nat k else 1 / 2 ^ nat (- k))"

function bitlen :: "int \<Rightarrow> int" where
  "bitlen n = (if 0 < n then 1 + bitlen (n div 2) else 0)"
  by pat_completeness auto
termination
  by (relation "measure nat") auto

declare bitlen.simps [simp del]

definition ilog2 :: "rat \<Rightarrow> int" where
  "ilog2 x =
     (case quotient_of x of
        (p, q) \<Rightarrow> let k = bitlen p - bitlen q in if pow2 k \<le> x then k else k - 1)"

definition round_half_even :: "rat \<Rightarrow> int" where
  "round_half_even y =
     (let f = \<lfloor>y\<rfloor>; r = y - of_int f
      in if r < 1 / 2 then f else if 1 / 2 < r then f + 1 else if even f then f else f + 1)"

definition fl :: "rat \<Rightarrow> rat" where
  "fl x =
     (if x = 0 then 0
      else let a = \<bar>x\<bar>; e = ilog2 a - 52; m = round_half_even (a / pow2 e)
           in sgn x * of_int m * pow2 e)"

text \<open>
  Subtraction and division of numbers, and \<^verbatim>\<open>Math.round\<close>, which returns the nearest
  integer and, of two that are equally near, the greater.
\<close>

definition num_sub :: "rat \<Rightarrow> rat \<Rightarrow> rat" where
  "num_sub a b = fl (a - b)"

definition num_div :: "rat \<Rightarrow> rat \<Rightarrow> rat" where
  "num_div a b = fl (a / b)"

definition Math_round :: "rat \<Rightarrow> int" where
  "Math_round x = \<lfloor>x + 1 / 2\<rfloor>"

section \<open>The parsed feed\<close>

text \<open>
  The parser is a library outside the repository; the route reads these fields of what
  it returns. A field that is absent (\<^verbatim>\<open>undefined\<close>) is \<open>None\<close>. The custom fields
  \<^verbatim>\<open>mediaContent\<close> and \<^verbatim>\<open>mediaThumbnail\<close> are untyped in the source, which tells an
  object (with or without a \<^verbatim>\<open>url\<close> property) from a string. The custom fields
  \<^verbatim>\<open>description\<close> and \<^verbatim>\<open>contentEncoded\<close> are untyped as well, and the source calls
  string methods on them with no test of their type: a \<open>field_value\<close> is a string or an
  object, which the parser returns for an element that has child elements. The fields
  that only the list of available fields reads (\<^verbatim>\<open>contentSnippet\<close>, \<^verbatim>\<open>categories\<close>,
  \<^verbatim>\<open>creator\<close>, \<^verbatim>\<open>author\<close>) are left out, and so is that list.
\<close>

datatype media_value = MediaObject "string option" | MediaString string

datatype field_value = Text string | Object

record enclosure_value =
  enclosure_url :: "string option"
  enclosure_type :: "string option"

record item =
  title :: "string option"
  link :: "string option"
  content :: "string option"
  description :: "field_value option"
  pubDate :: "string option"
  guid :: "string option"
  enclosure :: "enclosure_value option"
  mediaContent :: "media_value option"
  mediaThumbnail :: "media_value option"
  contentEncoded :: "field_value option"
  itemImage :: "string option"

record feed =
  feed_title :: "string option"
  feed_items :: "item list"

text \<open>
  Truthiness: a string is truthy when it is present and not empty, an object always.
  \<open>or_string a b\<close> is \<^verbatim>\<open>a || b\<close> for a string \<open>b\<close>, and \<open>or_field a b\<close> the same
  for an untyped \<open>a\<close>.
\<close>

fun truthy :: "string option \<Rightarrow> bool" where
  "truthy None = False"
| "truthy (Some s) = (s \<noteq> [])"

fun truthy_media :: "media_value option \<Rightarrow> bool" where
  "truthy_media None = False"
| "truthy_media (Some (MediaObject u)) = True"
| "truthy_media (Some (MediaString s)) = (s \<noteq> [])"

fun or_string :: "string option \<Rightarrow> string \<Rightarrow> string" where
  "or_string None b = b"
| "or_string (Some s) b = (if s = [] then b else s)"

fun truthy_field :: "field_value option \<Rightarrow> bool" where
  "truthy_field None = False"
| "truthy_field (Some (Text s)) = (s \<noteq> [])"
| "truthy_field (Some Object) = True"

fun or_field :: "field_value option \<Rightarrow> field_value \<Rightarrow> field_value" where
  "or_field None b = b"
| "or_field (Some (Text s)) b = (if s = [] then b else Text s)"
| "or_field (Some Object) b = Object"

text \<open>
  \<^verbatim>\<open>contentEncoded || content || description || ''\<close>, the content both the classifier
  and the image pass read.
\<close>

definition item_content :: "item \<Rightarrow> field_value" where
  "item_content it =
     or_field (contentEncoded it)
       (or_field (map_option Text (content it)) (or_field (description it) (Text [])))"

text \<open>
  A method call on an untyped value. A string has the methods \<^verbatim>\<open>includes\<close> and
  \<^verbatim>\<open>replace\<close>; on an object the property is \<^verbatim>\<open>undefined\<close> and the call raises a
  \<^verbatim>\<open>TypeError\<close>, whose message names the expression \<open>callee\<close> that was called.
\<close>

datatype js_error = TypeError string

definition not_a_function :: "string \<Rightarrow> js_error" where
  "not_a_function callee = TypeError (callee @ '' is not a function'')"

fun call_includes :: "string \<Rightarrow> field_value \<Rightarrow> string \<Rightarrow> js_error + bool" where
  "call_includes callee (Text s) p = Inr (String_includes s p)"
| "call_includes callee Object p = Inl (not_a_function callee)"

section \<open>The temporal analyzer\<close>

text \<open>
  \<^verbatim>\<open>new Date(s)\<close> parses the string and clips the result: a date holds a time value, a
  whole number of milliseconds of magnitude at most \<open>8.64 * 10^15\<close>, or is invalid.
  \<^verbatim>\<open>Date.parse\<close> is the engine's; it is the parameter \<open>parse\<close>, with \<open>None\<close> for
  \<^verbatim>\<open>NaN\<close>.
\<close>

definition Date_new :: "(string \<Rightarrow> int option) \<Rightarrow> string \<Rightarrow> int option" where
  "Date_new parse s =
     (case parse s of
        None \<Rightarrow> None
      | Some t \<Rightarrow> if \<bar>t\<bar> \<le> 8640000000000000 then Some t else None)"

text \<open>
  The most recent date: one step of the loop over the items, and the result.
  \<open>toLocaleString\<close> formats a time value and is the engine's as well.
\<close>

definition latest_step :: "(string \<Rightarrow> int option) \<Rightarrow> int option \<Rightarrow> item \<Rightarrow> int option" where
  "latest_step parse latestDate it =
     (case pubDate it of
        None \<Rightarrow> latestDate
      | Some s \<Rightarrow>
          if s = [] then latestDate
          else (case Date_new parse s of
                  None \<Rightarrow> latestDate
                | Some itemDate \<Rightarrow>
                    (case latestDate of
                       None \<Rightarrow> Some itemDate
                     | Some l \<Rightarrow> if itemDate > l then Some itemDate else Some l)))"

definition lastUpdate ::
  "(string \<Rightarrow> int option) \<Rightarrow> (int \<Rightarrow> string) \<Rightarrow> item list \<Rightarrow> string option" where
  "lastUpdate parse toLocaleString items =
     (case items of
        [] \<Rightarrow> None
      | firstItem # rest \<Rightarrow>
          (case foldl (latest_step parse) None items of
             Some latestDate \<Rightarrow> Some (toLocaleString latestDate)
           | None \<Rightarrow> if truthy (pubDate firstItem) then pubDate firstItem else None))"

text \<open>The dates the frequency estimate collects, in the order of the items.\<close>

definition dates_step :: "(string \<Rightarrow> int option) \<Rightarrow> int list \<Rightarrow> item \<Rightarrow> int list" where
  "dates_step parse dates it =
     (case pubDate it of
        None \<Rightarrow> dates
      | Some s \<Rightarrow>
          if s = [] then dates
          else (case Date_new parse s of None \<Rightarrow> dates | Some d \<Rightarrow> dates @ [d]))"

text \<open>
  \<^verbatim>\<open>dates.sort((a, b) => a.getTime() - b.getTime())\<close>. The comparator is consistent, so
  every stable sorting algorithm returns the same array; insertion is the one written
  here. An element goes before the first one it compares less than.
\<close>

fun insert_by :: "('a \<Rightarrow> 'a \<Rightarrow> rat) \<Rightarrow> 'a \<Rightarrow> 'a list \<Rightarrow> 'a list" where
  "insert_by cmp x [] = [x]"
| "insert_by cmp x (y # ys) = (if cmp x y < 0 then x # y # ys else y # insert_by cmp x ys)"

definition Array_sort :: "('a \<Rightarrow> 'a \<Rightarrow> rat) \<Rightarrow> 'a list \<Rightarrow> 'a list" where
  "Array_sort cmp xs = foldl (\<lambda>sorted x. insert_by cmp x sorted) [] xs"

definition by_time :: "int \<Rightarrow> int \<Rightarrow> rat" where
  "by_time a b = num_sub (of_int a) (of_int b)"

text \<open>The label for an average number of days between posts.\<close>

definition frequency_label :: "rat \<Rightarrow> string" where
  "frequency_label avgDaysBetween =
     (if avgDaysBetween < fl (1 / 10) then ''Multiple posts per day''
      else if avgDaysBetween < 1 then
        (let perDay = Math_round (num_div 1 avgDaysBetween)
         in if perDay = 1 then ''1 post per day''
            else string_of_nat (nat perDay) @ '' posts per day'')
      else if avgDaysBetween < 7 then
        (let perWeek = Math_round (num_div 7 avgDaysBetween)
         in if perWeek = 1 then ''1 post per week''
            else string_of_nat (nat perWeek) @ '' posts per week'')
      else if avgDaysBetween < 30 then
        (let perMonth = Math_round (num_div 30 avgDaysBetween)
         in if perMonth = 1 then ''1 post per month''
            else string_of_nat (nat perMonth) @ '' posts per month'')
      else ''Less than 1 post per month'')"

definition postFrequency :: "(string \<Rightarrow> int option) \<Rightarrow> item list \<Rightarrow> string option" where
  "postFrequency parse items =
     (if length items > 1 then
        (let dates = Array_sort by_time (foldl (dates_step parse) [] items)
         in if length dates > 1 then
              (let timeDiff = num_sub (of_int (dates ! (length dates - 1))) (of_int (dates ! 0));
                   daysDiff = num_div timeDiff (1000 * 60 * 60 * 24);
                   avgDaysBetween = num_div daysDiff (of_nat (length dates - 1))
               in Some (frequency_label avgDaysBetween))
            else None)
      else None)"

text \<open>
  The estimate as the specification words it: the parsable dates sorted ascending, the
  span in days between the earliest and the latest divided by the count less one, and
  the label by thresholds on that average \<open>d\<close>. The arithmetic is exact, and
  \<open>round\<close> is to the nearest integer, a half upwards.
\<close>

definition parsed_date :: "(string \<Rightarrow> int option) \<Rightarrow> item \<Rightarrow> int option" where
  "parsed_date parse it =
     (case pubDate it of None \<Rightarrow> None | Some s \<Rightarrow> if s = [] then None else Date_new parse s)"

definition parsable_dates :: "(string \<Rightarrow> int option) \<Rightarrow> item list \<Rightarrow> int list" where
  "parsable_dates parse items = List.map_filter (parsed_date parse) items"

definition posts_per :: "int \<Rightarrow> string \<Rightarrow> string" where
  "posts_per n unit =
     (if n = 1 then ''1 post per '' @ unit else string_of_nat (nat n) @ '' posts per '' @ unit)"

definition spec_label :: "rat \<Rightarrow> string" where
  "spec_label d =
     (if d < 1 / 10 then ''Multiple posts per day''
      else if d < 1 then posts_per \<lfloor>1 / d + 1 / 2\<rfloor> ''day''
      else if d < 7 then posts_per \<lfloor>7 / d + 1 / 2\<rfloor> ''week''
      else if d < 30 then posts_per \<lfloor>30 / d + 1 / 2\<rfloor> ''month''
      else ''Less than 1 post per month'')"

definition postFrequency_spec :: "(string \<Rightarrow> int option) \<Rightarrow> item list \<Rightarrow> string option" where
  "postFrequency_spec parse items =
     (let sorted = sort (parsable_dates parse items); count = length sorted
      in if count < 2 then None
         else
           (let span = of_int (Max (set sorted) - Min (set sorted)) / 86400000;
                d = span / of_nat (count - 1)
            in Some (spec_label d)))"

text \<open>
  The same estimate in the arithmetic of doubles: the difference of the two time
  values, its quotient by the milliseconds of a day and the quotient by the count less
  one are each rounded to a double, the first threshold is the double nearest to 0.1,
  and the number of posts is the rounded quotient, rounded to an integer.
\<close>

definition rounded_label :: "rat \<Rightarrow> string" where
  "rounded_label d =
     (if d < fl (1 / 10) then ''Multiple posts per day''
      else if d < 1 then posts_per \<lfloor>fl (1 / d) + 1 / 2\<rfloor> ''day''
      else if d < 7 then posts_per \<lfloor>fl (7 / d) + 1 / 2\<rfloor> ''week''
      else if d < 30 then posts_per \<lfloor>fl (30 / d) + 1 / 2\<rfloor> ''month''
      else ''Less than 1 post per month'')"

definition postFrequency_rounded :: "(string \<Rightarrow> int option) \<Rightarrow> item list \<Rightarrow> string option" where
  "postFrequency_rounded parse items =
     (let sorted = sort (parsable_dates parse items); count = length sorted
      in if count < 2 then None
         else
           (let span_ms = fl (of_int (Max (set sorted)) - of_int (Min (set sorted)));
                span = fl (span_ms / 86400000);
                d = fl (span / of_nat (count - 1))
            in Some (rounded_label d)))"

section \<open>The content classifier\<close>

text \<open>
  A match of \<open>tag_open\<close> is never empty, so what follows it is shorter than the text it
  was tried on.
\<close>

lemma ci_prefix_length: "ci_prefix p s = Some (m, r) \<Longrightarrow> length r \<le> length s"
proof (induction p s arbitrary: m r rule: ci_prefix.induct)
  case (3 p ps c cs)
  then show ?case by (fastforce split: if_splits option.splits)
qed simp_all

lemma upto_gt_length: "upto_gt s = Some (a, r) \<Longrightarrow> length r < length s"
proof (induction s arbitrary: a r)
  case (Cons c cs)
  then show ?case by (fastforce split: if_splits option.splits)
qed simp

lemma tag_open_length: "tag_open name s = Some (m, r) \<Longrightarrow> length r < length s"
  unfolding tag_open_def
  by (fastforce split: option.splits dest: ci_prefix_length upto_gt_length)

text \<open>
  \<^verbatim>\<open>content.replace(/<[^>]*>/g, '')\<close>: every match of \<^verbatim>\<open><[^>]*>\<close>, found from the
  left, is removed; a character at which the expression does not match stays.
\<close>

function strip_tags :: "string \<Rightarrow> string" where
  "strip_tags [] = []"
| "strip_tags (c # cs) =
     (case tag_open ''<'' (c # cs) of
        None \<Rightarrow> c # strip_tags cs
      | Some (m, rest) \<Rightarrow> strip_tags rest)"
  by pat_completeness auto
termination
  by (relation "measure length") (auto dest: tag_open_length)

datatype content_type = Full | Excerpt | Unknown

text \<open>
  The classification of the first item. \<^verbatim>\<open>content.replace\<close> is called on whatever the
  priority chose, so it raises when that is an object.
\<close>

definition contentType :: "item list \<Rightarrow> js_error + content_type" where
  "contentType items =
     (case items of
        [] \<Rightarrow> Inr Unknown
      | firstItem # rest \<Rightarrow>
          (case item_content firstItem of
             Object \<Rightarrow> Inl (not_a_function ''content.replace'')
           | Text body \<Rightarrow>
               (let contentLength = length (strip_tags body)
                in if contentLength > 500 then Inr Full
                   else if contentLength > 0 then Inr Excerpt
                   else Inr Unknown)))"

section \<open>The image source analyzer\<close>

text \<open>
  \<^verbatim>\<open>["']([^"']+)["']\<close> at the start of \<open>s\<close>: a quote of either kind, the longest run
  of characters that are not quotes, which must not be empty, and a quote of either
  kind. \<open>attr_value name\<close> is \<^verbatim>\<open>/name["']([^"']+)["']/i\<close>, capturing group 1, for
  \<^verbatim>\<open>url=\<close> and \<^verbatim>\<open>src=\<close>.
\<close>

definition is_quote :: "char \<Rightarrow> bool" where
  "is_quote c = (c = dquote \<or> c = squote)"

definition quoted_value :: "string \<Rightarrow> (string \<times> string) option" where
  "quoted_value s =
     (case s of
        [] \<Rightarrow> None
      | q # r \<Rightarrow>
          if is_quote q then
            (case dropWhile (\<lambda>c. \<not> is_quote c) r of
               [] \<Rightarrow> None
             | q' # r' \<Rightarrow>
                 if takeWhile (\<lambda>c. \<not> is_quote c) r = [] then None
                 else Some (takeWhile (\<lambda>c. \<not> is_quote c) r, r'))
          else None)"

definition attr_value :: "string \<Rightarrow> string \<Rightarrow> (string \<times> string) option" where
  "attr_value name s =
     (case ci_prefix name s of None \<Rightarrow> None | Some (m, r) \<Rightarrow> quoted_value r)"

text \<open>
  \<^verbatim>\<open>/<img[^>]+src=["']([^"']+)["']/i\<close>. The greedy \<^verbatim>\<open>[^>]+\<close> first takes the whole run
  of characters other than \<^verbatim>\<open>>\<close> and gives them back one at a time, down to one
  character, until the rest of the expression matches.
\<close>

fun greedy_then :: "nat \<Rightarrow> (string \<Rightarrow> 'a option) \<Rightarrow> string \<Rightarrow> 'a option" where
  "greedy_then 0 m s = None"
| "greedy_then (Suc k) m s =
     (case m (drop (Suc k) s) of Some r \<Rightarrow> Some r | None \<Rightarrow> greedy_then k m s)"

definition img_src :: "string \<Rightarrow> (string \<times> string) option" where
  "img_src s =
     (case ci_prefix ''<img'' s of
        None \<Rightarrow> None
      | Some (m, r) \<Rightarrow>
          greedy_then (length (takeWhile (\<lambda>c. c \<noteq> CHR ''>'') r)) (attr_value ''src='') r)"

text \<open>
  The counters of \<^verbatim>\<open>imageSources\<close> and the array \<^verbatim>\<open>imageUrls\<close>, which the pass over
  the raw text and the pass over the items update in turn.
\<close>

record image_sources =
  count_mediaContent :: nat
  count_mediaThumbnail :: nat
  count_enclosure :: nat
  count_imgTag :: nat
  count_openGraph :: nat

record image_scan = image_sources +
  imageUrls :: "string list"

text \<open>
  \<open>push_new\<close> is \<^verbatim>\<open>if (!imageUrls.includes(u)) imageUrls.push(u)\<close>. \<open>media_url\<close> is
  the URL that the two branches on the type of a media field read: the \<^verbatim>\<open>url\<close>
  property of an object when it is truthy, the first \<^verbatim>\<open>url="..."\<close> of a string.
\<close>

definition push_new :: "string list \<Rightarrow> string \<Rightarrow> string list" where
  "push_new urls u = (if u \<in> set urls then urls else urls @ [u])"

fun media_url :: "media_value \<Rightarrow> string option" where
  "media_url (MediaObject u) = (if truthy u then u else None)"
| "media_url (MediaString s) =
     (case regex_exec (attr_value ''url='') s of None \<Rightarrow> None | Some (u, r) \<Rightarrow> Some u)"

text \<open>
  The pass over the raw text: every \<^verbatim>\<open><media:thumbnail ...>\<close> tag counts, and the
  \<^verbatim>\<open>url\<close> of each that has one is pushed, with no check for a URL already there.
\<close>

definition thumbnail_urls :: "string list \<Rightarrow> string list" where
  "thumbnail_urls mediaThumbnailMatches =
     List.map_filter
       (\<lambda>m. case regex_exec (attr_value ''url='') m of None \<Rightarrow> None | Some (u, r) \<Rightarrow> Some u)
       mediaThumbnailMatches"

definition thumbnail_prepass :: "string \<Rightarrow> image_scan" where
  "thumbnail_prepass xmlContent =
     (let mediaThumbnailMatches = regex_matchAll (tag_open ''<media:thumbnail'') xmlContent
      in \<lparr>count_mediaContent = 0,
          count_mediaThumbnail =
            (if length mediaThumbnailMatches > 0 then length mediaThumbnailMatches else 0),
          count_enclosure = 0, count_imgTag = 0, count_openGraph = 0,
          imageUrls =
            (if length mediaThumbnailMatches > 0 then thumbnail_urls mediaThumbnailMatches
             else [])\<rparr>)"

text \<open>The five checks of the loop body, in the order of the source.\<close>

definition check_mediaContent :: "image_scan \<Rightarrow> item \<Rightarrow> image_scan" where
  "check_mediaContent st it =
     (case mediaContent it of
        None \<Rightarrow> st
      | Some v \<Rightarrow>
          if truthy_media (Some v) then
            st\<lparr>count_mediaContent := count_mediaContent st + 1,
               imageUrls :=
                 (case media_url v of None \<Rightarrow> imageUrls st | Some u \<Rightarrow> imageUrls st @ [u])\<rparr>
          else st)"

definition check_mediaThumbnail :: "image_scan \<Rightarrow> item \<Rightarrow> image_scan" where
  "check_mediaThumbnail st it =
     (case mediaThumbnail it of
        None \<Rightarrow> st
      | Some v \<Rightarrow>
          if truthy_media (Some v) then
            st\<lparr>count_mediaThumbnail :=
                 (if count_mediaThumbnail st = 0 then count_mediaThumbnail st + 1
                  else count_mediaThumbnail st),
               imageUrls :=
                 (case media_url v of None \<Rightarrow> imageUrls st | Some u \<Rightarrow> push_new (imageUrls st) u)\<rparr>
          else st)"

definition enclosure_is_image :: "enclosure_value option \<Rightarrow> bool" where
  "enclosure_is_image e =
     (case e of
        None \<Rightarrow> False
      | Some enc \<Rightarrow>
          (case enclosure_type enc of None \<Rightarrow> False | Some t \<Rightarrow> String_startsWith t ''image/''))"

definition check_enclosure :: "image_scan \<Rightarrow> item \<Rightarrow> image_scan" where
  "check_enclosure st it =
     (case enclosure it of
        None \<Rightarrow> st
      | Some enc \<Rightarrow>
          if enclosure_is_image (Some enc) then
            st\<lparr>count_enclosure := count_enclosure st + 1,
               imageUrls :=
                 (case enclosure_url enc of
                    None \<Rightarrow> imageUrls st
                  | Some u \<Rightarrow> if u = [] then imageUrls st else push_new (imageUrls st) u)\<rparr>
          else st)"

definition check_imgTag :: "image_scan \<Rightarrow> string \<Rightarrow> image_scan" where
  "check_imgTag st body =
     (if String_includes body ''<img'' then
        st\<lparr>count_imgTag := count_imgTag st + 1,
           imageUrls :=
             (case regex_exec img_src body of
                None \<Rightarrow> imageUrls st
              | Some (u, r) \<Rightarrow> push_new (imageUrls st) u)\<rparr>
      else st)"

definition og_image_property :: string where
  \<open>og_image_property = ''property="og:image"''\<close>

definition check_openGraph :: "image_scan \<Rightarrow> string \<Rightarrow> image_scan" where
  "check_openGraph st body =
     (if String_includes body ''og:image'' \<or> String_includes body og_image_property
      then st\<lparr>count_openGraph := count_openGraph st + 1\<rparr>
      else st)"

text \<open>
  One turn of the loop. The first three checks read typed or type-tested fields. The
  last two read the content the priority chose: the first call on it,
  \<^verbatim>\<open>content.includes('<img')\<close>, raises when it is an object, after the first three
  checks have updated the counters. The loop stops at the first exception.
\<close>

definition scan_item :: "image_scan \<Rightarrow> item \<Rightarrow> js_error + image_scan" where
  "scan_item st it =
     (let st' = check_enclosure (check_mediaThumbnail (check_mediaContent st it) it) it
      in case item_content it of
           Object \<Rightarrow> Inl (not_a_function ''content.includes'')
         | Text body \<Rightarrow> Inr (check_openGraph (check_imgTag st' body) body))"

fun scan_items :: "image_scan \<Rightarrow> item list \<Rightarrow> js_error + image_scan" where
  "scan_items st [] = Inr st"
| "scan_items st (it # rest) =
     (case scan_item st it of Inl e \<Rightarrow> Inl e | Inr st' \<Rightarrow> scan_items st' rest)"

definition scan_images :: "string \<Rightarrow> item list \<Rightarrow> js_error + image_scan" where
  "scan_images xmlContent items = scan_items (thumbnail_prepass xmlContent) items"

text \<open>
  \<^verbatim>\<open>imageUrls.slice(0, 2)\<close>, one \<^verbatim>\<open>{url}\<close> each; the report leaves the field out when
  the list is empty.
\<close>

definition imageResolutions :: "string list \<Rightarrow> string list option" where
  "imageResolutions urls = (if length (take 2 urls) > 0 then Some (take 2 urls) else None)"

text \<open>
  The featured-image flag: the loop leaves at the first item that passes one of its six
  checks. \<open>and_includes callee v p\<close> is \<^verbatim>\<open>v && v.includes(p)\<close>, which calls the method
  only on a truthy \<open>v\<close>.
\<close>

definition and_includes :: "string \<Rightarrow> field_value option \<Rightarrow> string \<Rightarrow> js_error + bool" where
  "and_includes callee v p =
     (case v of
        None \<Rightarrow> Inr False
      | Some x \<Rightarrow> if truthy_field (Some x) then call_includes callee x p else Inr False)"

fun hasFeaturedImage :: "item list \<Rightarrow> js_error + bool" where
  "hasFeaturedImage [] = Inr False"
| "hasFeaturedImage (it # rest) =
     (if truthy_media (mediaContent it) then Inr True
      else if truthy_media (mediaThumbnail it) then Inr True
      else if enclosure_is_image (enclosure it) then Inr True
      else if truthy (itemImage it) then Inr True
      else (case and_includes ''item.description.includes'' (description it) ''<img'' of
              Inl e \<Rightarrow> Inl e
            | Inr True \<Rightarrow> Inr True
            | Inr False \<Rightarrow>
                (case and_includes ''item.contentEncoded.includes'' (contentEncoded it) ''<img'' of
                   Inl e \<Rightarrow> Inl e
                 | Inr True \<Rightarrow> Inr True
                 | Inr False \<Rightarrow> hasFeaturedImage rest)))"

section \<open>Duplicates, missing fields and the report\<close>

text \<open>
  \<^verbatim>\<open>guidMap\<close> is a \<^verbatim>\<open>Map\<close>, which keeps its keys in the order of their first
  insertion: an association list, a key that is there updated in place.
\<close>

fun guid_count :: "(string \<times> nat) list \<Rightarrow> string \<Rightarrow> (string \<times> nat) list" where
  "guid_count [] g = [(g, 1)]"
| "guid_count ((k, n) # m) g = (if k = g then (k, n + 1) # m else (k, n) # guid_count m g)"

definition guid_step :: "(string \<times> nat) list \<Rightarrow> item \<Rightarrow> (string \<times> nat) list" where
  "guid_step guidMap it =
     (let g = or_string (guid it) (or_string (link it) [])
      in if g \<noteq> [] then guid_count guidMap g else guidMap)"

definition duplicateGuids :: "item list \<Rightarrow> string list" where
  "duplicateGuids items = map fst (filter (\<lambda>(g, n). n > 1) (foldl guid_step [] items))"

definition missingFields :: "item list \<Rightarrow> string list" where
  "missingFields items =
     (case items of
        [] \<Rightarrow> []
      | firstItem # rest \<Rightarrow>
          (if \<not> truthy (title firstItem) then [''title''] else [])
          @ (if \<not> truthy (link firstItem) then [''link''] else [])
          @ (if \<not> truthy_field (description firstItem) \<and> \<not> truthy (content firstItem)
             then [''description''] else []))"

text \<open>
  The JSON the route answers with. A failure carries \<^verbatim>\<open>isValid: false\<close>, an empty
  list of fields, \<^verbatim>\<open>hasFeaturedImage: false\<close>, \<^verbatim>\<open>contentType: 'unknown'\<close>, the
  \<^verbatim>\<open>error\<close> and, after a failed validation, \<^verbatim>\<open>validationErrors\<close>. A success
  carries \<^verbatim>\<open>isValid: true\<close> and the analysis; \<^verbatim>\<open>null\<close> and a field left out (its
  value is \<^verbatim>\<open>undefined\<close>) are both \<open>None\<close>, in the fields that can be the one or the
  other. \<^verbatim>\<open>availableFields\<close> and \<^verbatim>\<open>feedType\<close> are not modelled.
\<close>

record analysis =
  report_title :: string
  report_hasFeaturedImage :: bool
  report_contentType :: content_type
  report_lastUpdate :: "string option"
  report_itemCount :: nat
  report_postFrequency :: "string option"
  report_duplicateGuids :: "string list option"
  report_missingFields :: "string list option"
  report_imageSources :: image_sources
  report_imageResolutions :: "string list option"

datatype report = Failure string "string list option" | Success analysis

fun report_isValid :: "report \<Rightarrow> bool" where
  "report_isValid (Failure e v) = False"
| "report_isValid (Success a) = True"

fun String_join :: "string \<Rightarrow> string list \<Rightarrow> string" where
  "String_join sep [] = []"
| "String_join sep [x] = x"
| "String_join sep (x # y # ys) = x @ sep @ String_join sep (y # ys)"

text \<open>
  The \<^verbatim>\<open>catch\<close> block of \<^verbatim>\<open>POST\<close>, for an exception whose message is \<open>message\<close>
  (\<open>None\<close> when it has none).
\<close>

definition errorMessage :: "string option \<Rightarrow> string" where
  "errorMessage message =
     (case message of
        None \<Rightarrow> ''Failed to parse RSS feed''
      | Some m \<Rightarrow>
          if m = [] then ''Failed to parse RSS feed''
          else if String_includes m ''timeout''
          then ''Request timed out. The feed may be slow or unavailable.''
          else if String_includes m ''ENOTFOUND'' \<or> String_includes m ''getaddrinfo''
          then ''Could not reach the feed URL. Please check if the URL is correct.''
          else if String_includes m ''404''
          then ''Feed not found (404). Please check if the URL is correct.''
          else if String_includes m ''CORS'' \<or> String_includes m ''Access-Control''
          then ''CORS error. The feed server may be blocking requests.''
          else m)"

text \<open>
  The analysis of a parsed feed, in the order of the source: the featured-image flag,
  the content type, and the image scan can each raise, and the first exception ends the
  analysis; the other parts cannot.
\<close>

definition analyze ::
  "(string \<Rightarrow> int option) \<Rightarrow> (int \<Rightarrow> string) \<Rightarrow> string \<Rightarrow> feed \<Rightarrow> js_error + analysis" where
  "analyze parse toLocaleString xmlContent fd =
     (let items = feed_items fd
      in case hasFeaturedImage items of
           Inl e \<Rightarrow> Inl e
         | Inr featured \<Rightarrow>
             (case contentType items of
                Inl e \<Rightarrow> Inl e
              | Inr kind \<Rightarrow>
                  (case scan_images xmlContent items of
                     Inl e \<Rightarrow> Inl e
                   | Inr scan \<Rightarrow>
                       Inr \<lparr>report_title = or_string (feed_title fd) ''Untitled Feed'',
                            report_hasFeaturedImage = featured,
                            report_contentType = kind,
                            report_lastUpdate = lastUpdate parse toLocaleString items,
                            report_itemCount = length items,
                            report_postFrequency = postFrequency parse items,
                            report_duplicateGuids =
                              (if length (duplicateGuids items) > 0
                               then Some (duplicateGuids items) else None),
                            report_missingFields =
                              (if length (missingFields items) > 0
                               then Some (missingFields items) else None),
                            report_imageSources = image_sources.truncate scan,
                            report_imageResolutions = imageResolutions (imageUrls scan)\<rparr>)))"

text \<open>
  \<^verbatim>\<open>POST\<close> from the validation on, for the raw document \<open>xmlContent\<close> that was fetched
  and for what the parser answers: \<open>Inr\<close> the parsed feed, or \<open>Inl\<close> the message of the
  exception it raises. The one \<^verbatim>\<open>catch\<close> block of \<^verbatim>\<open>POST\<close> also takes an exception
  of the analysis.
\<close>

definition POST ::
  "(string \<Rightarrow> int option) \<Rightarrow> (int \<Rightarrow> string) \<Rightarrow> string \<Rightarrow> string \<Rightarrow> string option + feed \<Rightarrow> report" where
  "POST parse toLocaleString xmlContent url parsed =
     (let validation = validateFeedXML xmlContent url
      in if \<not> isValid validation then
           Failure (''Feed validation failed: '' @ String_join ''; '' (errors validation))
             (Some (errors validation))
         else (case parsed of
                 Inl message \<Rightarrow> Failure (errorMessage message) None
               | Inr fd \<Rightarrow>
                   (case analyze parse toLocaleString xmlContent fd of
                      Inl (TypeError message) \<Rightarrow> Failure (errorMessage (Some message)) None
                    | Inr a \<Rightarrow> Success a)))"

section \<open>Rounding keeps the sign\<close>

lemma pow2_pos: "0 < pow2 k"
  by (simp add: pow2_def)

lemma pow2_nat: "0 \<le> k \<Longrightarrow> pow2 k = 2 ^ nat k"
  by (simp add: pow2_def)

lemma pow2_eq_powi: "pow2 k = 2 powi k"
  by (simp add: pow2_def power_int_def field_simps)

lemma pow2_add: "pow2 (a + b) = pow2 a * pow2 b"
  by (simp add: pow2_eq_powi power_int_add)

lemma pow2_diff: "pow2 (a - b) = pow2 a / pow2 b"
  by (simp add: pow2_eq_powi power_int_diff)


lemma bitlen_bounds: "0 < n \<Longrightarrow> 2 ^ nat (bitlen n - 1) \<le> n \<and> n < 2 ^ nat (bitlen n) \<and> 0 < bitlen n"
proof (induction n rule: bitlen.induct)
  case (1 n)
  show ?case
  proof (cases "n = 1")
    case True
    then show ?thesis by (simp add: bitlen.simps[of 1] bitlen.simps[of 0])
  next
    case False
    with 1 have "0 < n div 2" by auto
    with 1 have ih: "2 ^ nat (bitlen (n div 2) - 1) \<le> n div 2" "n div 2 < 2 ^ nat (bitlen (n div 2))" "0 < bitlen (n div 2)"
      by auto
    have bl: "bitlen n = 1 + bitlen (n div 2)" using 1(2) by (subst bitlen.simps) simp
    have "nat (bitlen n - 1) = Suc (nat (bitlen (n div 2) - 1))" using bl ih(3) by simp
    moreover have "nat (bitlen n) = Suc (nat (bitlen (n div 2)))" using bl ih(3) by simp
    moreover have "2 * 2 ^ nat (bitlen (n div 2) - 1) \<le> n"
      using ih(1) by linarith
    moreover have "n < 2 * 2 ^ nat (bitlen (n div 2))"
      using ih(2) by linarith
    ultimately show ?thesis using bl ih(3) by simp
  qed
qed

lemma ilog2_le: assumes "0 < x" shows "pow2 (ilog2 x) \<le> x"
proof -
  obtain p q where pq: "quotient_of x = (p, q)" by (cases "quotient_of x")
  then have q: "0 < q" and x: "x = of_int p / of_int q"
    by (auto simp: quotient_of_denom_pos quotient_of_div)
  from assms x q have p: "0 < p" by (simp add: zero_less_divide_iff)
  let ?k = "bitlen p - bitlen q"
  show ?thesis
  proof (cases "pow2 ?k \<le> x")
    case True
    then show ?thesis by (simp add: ilog2_def pq Let_def)
  next
    case False
    have "(2::rat) ^ nat (bitlen p - 1) \<le> of_int p"
      using bitlen_bounds[OF p] by (metis of_int_le_iff of_int_numeral of_int_power)
    moreover have "of_int q < (2::rat) ^ nat (bitlen q)"
      using bitlen_bounds[OF q] by (metis of_int_less_iff of_int_numeral of_int_power)
    moreover have "pow2 (bitlen p - 1) = 2 ^ nat (bitlen p - 1)"
      using bitlen_bounds[OF p] by (simp add: pow2_nat)
    moreover have "pow2 (bitlen q) = 2 ^ nat (bitlen q)"
      using bitlen_bounds[OF q] by (simp add: pow2_nat)
    ultimately have a: "pow2 (bitlen p - 1) \<le> of_int p" and b: "of_int q \<le> pow2 (bitlen q)"
      by simp_all
    have "pow2 (?k - 1) = pow2 (bitlen p - 1) / pow2 (bitlen q)"
      using pow2_diff[of "bitlen p - 1" "bitlen q"] by (simp add: algebra_simps)
    also have "\<dots> \<le> of_int p / of_int q"
      using a b q pow2_pos[of "bitlen p - 1"] by (intro frac_le) auto
    also have "\<dots> = x" using x by simp
    finally have "pow2 (?k - 1) \<le> x" .
    moreover have "ilog2 x = ?k - 1" using False by (simp add: ilog2_def pq Let_def)
    ultimately show ?thesis by simp
  qed
qed

lemma ilog2_less: assumes "0 < x" shows "x < pow2 (ilog2 x + 1)"
proof -
  obtain p q where pq: "quotient_of x = (p, q)" by (cases "quotient_of x")
  then have q: "0 < q" and x: "x = of_int p / of_int q"
    by (auto simp: quotient_of_denom_pos quotient_of_div)
  from assms x q have p: "0 < p" by (simp add: zero_less_divide_iff)
  let ?k = "bitlen p - bitlen q"
  show ?thesis
  proof (cases "pow2 ?k \<le> x")
    case True
    have "of_int p < (2::rat) ^ nat (bitlen p)"
      using bitlen_bounds[OF p] by (metis of_int_less_iff of_int_numeral of_int_power)
    moreover have "(2::rat) ^ nat (bitlen q - 1) \<le> of_int q"
      using bitlen_bounds[OF q] by (metis of_int_le_iff of_int_numeral of_int_power)
    moreover have "pow2 (bitlen p) = 2 ^ nat (bitlen p)"
      using bitlen_bounds[OF p] by (simp add: pow2_nat)
    moreover have "pow2 (bitlen q - 1) = 2 ^ nat (bitlen q - 1)"
      using bitlen_bounds[OF q] by (simp add: pow2_nat)
    ultimately have a: "of_int p < pow2 (bitlen p)" and b: "pow2 (bitlen q - 1) \<le> of_int q"
      by simp_all
    have "x = of_int p / of_int q" by (rule x)
    also have "\<dots> < pow2 (bitlen p) / pow2 (bitlen q - 1)"
      using a b p q pow2_pos[of "bitlen q - 1"] by (intro frac_less) auto
    also have "\<dots> = pow2 (?k + 1)"
      using pow2_diff[of "bitlen p" "bitlen q - 1"] by (simp add: algebra_simps)
    finally have "x < pow2 (?k + 1)" .
    moreover have "ilog2 x = ?k" using True by (simp add: ilog2_def pq Let_def)
    ultimately show ?thesis by simp
  next
    case False
    then have "ilog2 x = ?k - 1" by (simp add: ilog2_def pq Let_def)
    then show ?thesis using False by simp
  qed
qed

lemma round_half_even_ge: "1 \<le> y \<Longrightarrow> 1 \<le> round_half_even y"
proof -
  assume "1 \<le> y"
  then have "1 \<le> \<lfloor>y\<rfloor>" by linarith
  then show ?thesis by (simp add: round_half_even_def Let_def)
qed

lemma fl_pos: assumes "0 < x" shows "0 < fl x"
proof -
  let ?e = "ilog2 x - 52"
  have "pow2 (ilog2 x) \<le> x" using assms by (rule ilog2_le)
  moreover have "pow2 (ilog2 x) = pow2 ?e * pow2 52"
    using pow2_add[of ?e 52] by simp
  moreover have "pow2 ?e * 1 \<le> pow2 ?e * pow2 52"
    using pow2_pos[of ?e] by (intro mult_left_mono) (simp_all add: pow2_def)
  ultimately have "pow2 ?e \<le> x" by simp
  then have "1 \<le> x / pow2 ?e" using pow2_pos[of ?e] by (simp add: pos_le_divide_eq)
  then have "1 \<le> round_half_even (x / pow2 ?e)" by (rule round_half_even_ge)
  then have "0 < (of_int (round_half_even (x / pow2 ?e)) :: rat)" by simp
  then have "0 < of_int (round_half_even (x / pow2 ?e)) * pow2 ?e"
    using pow2_pos[of ?e] by simp
  moreover have "fl x = of_int (round_half_even (x / pow2 ?e)) * pow2 ?e"
    using assms by (simp add: fl_def Let_def)
  ultimately show ?thesis by simp
qed

lemma fl_neg: "fl (- x) = - fl x"
  by (simp add: fl_def Let_def)

lemma fl_less_zero_iff: "fl x < 0 \<longleftrightarrow> x < 0"
proof (cases "x < 0")
  case True
  then have "0 < fl (- x)" by (intro fl_pos) simp
  with True show ?thesis by (simp add: fl_neg)
next
  case False
  then have "x = 0 \<or> 0 < x" by auto
  then have "0 \<le> fl x" using fl_pos[of x] by (auto simp: fl_def)
  with False show ?thesis by simp
qed

section \<open>Rounding is to the nearest double\<close>

text \<open>
  The error of \<open>fl\<close> is at most one part in \<open>2^53\<close>, and \<open>fl\<close> leaves the integers
  up to \<open>2^53\<close> as they are.
\<close>

lemma pow2_mono: "a \<le> b \<Longrightarrow> pow2 a \<le> pow2 b"
  by (simp add: pow2_eq_powi power_int_increasing)

lemma round_half_even_error: "\<bar>of_int (round_half_even y) - y\<bar> \<le> 1 / 2"
proof -
  have "of_int \<lfloor>y\<rfloor> \<le> y" "y < of_int \<lfloor>y\<rfloor> + 1" by linarith+
  then show ?thesis
    by (auto simp: round_half_even_def Let_def abs_le_iff)
qed

lemma round_half_even_of_int: "round_half_even (of_int n) = n"
  by (simp add: round_half_even_def Let_def)

lemma fl_pos_eq:
  "0 < x \<Longrightarrow> fl x = of_int (round_half_even (x / pow2 (ilog2 x - 52))) * pow2 (ilog2 x - 52)"
  by (simp add: fl_def Let_def)

lemma fl_relative_error_pos: assumes "0 < x" shows "\<bar>fl x - x\<bar> \<le> x / 2 ^ 53"
proof -
  let ?e = "ilog2 x - 52"
  let ?y = "x / pow2 ?e"
  have p: "0 < pow2 ?e" by (rule pow2_pos)
  have "pow2 (ilog2 x) = pow2 ?e * pow2 52" using pow2_add[of ?e 52] by simp
  moreover have "pow2 (ilog2 x) \<le> x" using assms by (rule ilog2_le)
  moreover have "pow2 52 = 2 ^ 52" by (simp add: pow2_def)
  ultimately have e: "pow2 ?e * 2 ^ 52 \<le> x" by simp
  have "fl x - x = (of_int (round_half_even ?y) - ?y) * pow2 ?e"
    using assms p by (simp add: fl_pos_eq field_simps)
  then have "\<bar>fl x - x\<bar> = \<bar>of_int (round_half_even ?y) - ?y\<bar> * pow2 ?e"
    using p by (simp add: abs_mult)
  also have "\<dots> \<le> 1 / 2 * pow2 ?e"
    using round_half_even_error[of ?y] p by (intro mult_right_mono) simp_all
  also have "\<dots> \<le> x / 2 ^ 53" using e by simp
  finally show ?thesis .
qed

lemma fl_relative_error: "\<bar>fl x - x\<bar> \<le> \<bar>x\<bar> / 2 ^ 53"
proof (cases "0 < x")
  case True
  then show ?thesis using fl_relative_error_pos[of x] by simp
next
  case False
  show ?thesis
  proof (cases "x = 0")
    case True
    then show ?thesis by (simp add: fl_def)
  next
    case False
    with \<open>\<not> 0 < x\<close> have neg: "0 < - x" by simp
    have "\<bar>fl x - x\<bar> = \<bar>fl (- x) - (- x)\<bar>" by (simp add: fl_neg)
    then show ?thesis using fl_relative_error_pos[OF neg] neg by simp
  qed
qed

lemma ilog2_less_bound: assumes "0 < x" and "x < pow2 k" shows "ilog2 x < k"
proof (rule ccontr)
  assume "\<not> ilog2 x < k"
  then have "pow2 k \<le> pow2 (ilog2 x)" by (intro pow2_mono) simp
  then show False using ilog2_le[OF assms(1)] assms(2) by simp
qed

lemma fl_of_nat_small: assumes "0 < n" and "n < 2 ^ 53" shows "fl (of_int n) = of_int n"
proof -
  let ?x = "of_int n :: rat"
  have x: "0 < ?x" using assms(1) by simp
  have "?x < 2 ^ 53" using assms(2) by (metis of_int_less_iff of_int_numeral of_int_power)
  then have "?x < pow2 53" by (simp add: pow2_def)
  then have "ilog2 ?x < 53" using x by (rule ilog2_less_bound[rotated])
  define k where "k = nat (52 - ilog2 ?x)"
  have k: "ilog2 ?x - 52 = - int k" using \<open>ilog2 ?x < 53\<close> by (simp add: k_def)
  have pk: "pow2 (- int k) = 1 / 2 ^ k" by (simp add: pow2_def)
  have "?x / pow2 (ilog2 ?x - 52) = of_int (n * 2 ^ k)" by (simp add: k pk)
  then have "round_half_even (?x / pow2 (ilog2 ?x - 52)) = n * 2 ^ k"
    by (simp only: round_half_even_of_int)
  then show ?thesis using x by (simp add: fl_pos_eq k pk)
qed

lemma fl_2_53: "fl 9007199254740992 = 9007199254740992"
  by code_simp

lemma fl_of_int: assumes "\<bar>n\<bar> \<le> 2 ^ 53" shows "fl (of_int n) = of_int n"
proof -
  have pos: "fl (of_int m) = of_int m" if "0 < m" "m \<le> 2 ^ 53" for m :: int
  proof (cases "m = 2 ^ 53")
    case True
    then show ?thesis using fl_2_53 by simp
  next
    case False
    then show ?thesis using that fl_of_nat_small[of m] by simp
  qed
  consider "n = 0" | "0 < n" | "n < 0" by linarith
  then show ?thesis
  proof cases
    case 1
    then show ?thesis by (simp add: fl_def)
  next
    case 2
    then show ?thesis using pos[of n] assms by simp
  next
    case 3
    then have "fl (of_int (- n)) = of_int (- n)" using pos[of "- n"] assms by simp
    then show ?thesis by (simp add: fl_neg)
  qed
qed

lemma fl_ties:
  "fl 9007199254740993 = 9007199254740992" "fl 9007199254740995 = 9007199254740996"
  by code_simp+

section \<open>Every match consumes input\<close>

text \<open>
  The matchers of the route never match the empty string, so \<open>regex_matchAll\<close> takes
  the branch that resumes after the match at every step.
\<close>

lemma lazy_until_length: "lazy_until lit s = Some (a, r) \<Longrightarrow> length r \<le> length s"
proof (induction s arbitrary: a r)
  case Nil
  then show ?case by (simp split: if_splits)
next
  case (Cons c cs)
  then show ?case
    by (fastforce split: option.splits dest: ci_prefix_length)
qed

lemma element_length: "element name close s = Some (g, r) \<Longrightarrow> length r < length s"
  unfolding element_def
  by (fastforce split: option.splits dest: tag_open_length lazy_until_length)

lemma regex_exec_length:
  assumes "\<And>t m r. matcher t = Some (m, r) \<Longrightarrow> length r < length t"
    and "regex_exec matcher s = Some (m, r)"
  shows "length r < length s"
  using assms(2)
proof (induction s)
  case Nil
  then show ?case using assms(1)[of "[]" m r] by simp
next
  case (Cons c cs)
  show ?case
  proof (cases "matcher (c # cs)")
    case None
    then show ?thesis using Cons by (simp add: less_Suc_eq)
  next
    case (Some a)
    then show ?thesis using Cons.prems assms(1)[of "c # cs" m r] by simp
  qed
qed

lemma regex_matchAll_unfold:
  assumes "\<And>t m r. matcher t = Some (m, r) \<Longrightarrow> length r < length t"
  shows "regex_matchAll matcher s =
     (case regex_exec matcher s of None \<Rightarrow> [] | Some (m, rest) \<Rightarrow> m # regex_matchAll matcher rest)"
proof (cases "regex_exec matcher s")
  case None
  then show ?thesis by (subst regex_matchAll.simps) simp
next
  case (Some a)
  obtain m rest where a: "a = (m, rest)" by (cases a)
  have "length rest < length s"
    using regex_exec_length[of matcher s m rest] assms Some a by blast
  then show ?thesis using Some a by (subst regex_matchAll.simps) simp
qed

lemma tag_open_matchAll:
  "regex_matchAll (tag_open name) s =
     (case regex_exec (tag_open name) s of
        None \<Rightarrow> []
      | Some (m, rest) \<Rightarrow> m # regex_matchAll (tag_open name) rest)"
  by (rule regex_matchAll_unfold) (rule tag_open_length)

lemma element_matchAll:
  "regex_matchAll (element name close) s =
     (case regex_exec (element name close) s of
        None \<Rightarrow> []
      | Some (g, rest) \<Rightarrow> g # regex_matchAll (element name close) rest)"
  by (rule regex_matchAll_unfold) (rule element_length)

section \<open>Properties of the validator\<close>

text \<open>
  C1. For every document, the outcome of \<open>validateFeedXML\<close> has
  \<open>isValid\<close> exactly when its list of violations is empty. This holds on the
  early return of the first check, on the normal return, and on the internal-error
  path, where the error is added to the violations collected so far.
\<close>

theorem validateFeedXML_isValid_iff_no_errors:
  "isValid (validateFeedXML xmlContent url) = (errors (validateFeedXML xmlContent url) = [])
   \<and> isValid (validateFeedXML_catch errs message)
       = (errors (validateFeedXML_catch errs message) = [])"
  by (simp add: validateFeedXML_def validateFeedXML_catch_def Let_def)

text \<open>
  C2. A document whose trimmed text starts with none of \<^verbatim>\<open><?xml\<close>, \<^verbatim>\<open><rss\<close> and
  \<^verbatim>\<open><feed\<close> is invalid with exactly one violation, that of the first check; no
  other rule adds to the list, whatever the document contains.
\<close>

theorem validateFeedXML_not_xml:
  assumes "\<not> String_startsWith (String_trim xmlContent) ''<?xml''"
    and "\<not> String_startsWith (String_trim xmlContent) ''<rss''"
    and "\<not> String_startsWith (String_trim xmlContent) ''<feed''"
  shows "isValid (validateFeedXML xmlContent url) = False
    \<and> length (errors (validateFeedXML xmlContent url)) = 1
    \<and> errors (validateFeedXML xmlContent url) = [''Feed does not appear to be valid XML'']"
  using assms by (simp add: validateFeedXML_def)

theorem validateFeedXML_not_xml_witness:
  "\<not> String_startsWith (String_trim ''<html></html>'') ''<?xml''
   \<and> \<not> String_startsWith (String_trim ''<html></html>'') ''<rss''
   \<and> \<not> String_startsWith (String_trim ''<html></html>'') ''<feed''
   \<and> isValid (validateFeedXML ''<html></html>'' ''http://x/feed'') = False
   \<and> length (errors (validateFeedXML ''<html></html>'' ''http://x/feed'')) = 1
   \<and> errors (validateFeedXML ''<html></html>'' ''http://x/feed'')
       = [''Feed does not appear to be valid XML'']"
proof -
  have a: "\<not> String_startsWith (String_trim ''<html></html>'') ''<?xml''"
    and b: "\<not> String_startsWith (String_trim ''<html></html>'') ''<rss''"
    and c: "\<not> String_startsWith (String_trim ''<html></html>'') ''<feed''"
    by (simp_all add: String_trim_def isWhiteSpace_def)
  from validateFeedXML_not_xml [OF a b c, of "''http://x/feed''"] a b c show ?thesis
    by blast
qed

section \<open>Sample inputs\<close>

text \<open>
  An item with no field set, items that carry only a timestamp, and the values of
  \<^verbatim>\<open>Date.parse\<close> and \<^verbatim>\<open>toLocaleString\<close> (in the time zone UTC) on the
  timestamps used below. Every other string, \<^verbatim>\<open>soon\<close> and \<^verbatim>\<open>later\<close> among them, is
  not a date.
\<close>

definition empty_item :: item where
  "empty_item =
     \<lparr>title = None, link = None, content = None, description = None, pubDate = None,
      guid = None, enclosure = None, mediaContent = None, mediaThumbnail = None,
      contentEncoded = None, itemImage = None\<rparr>"

definition dated :: "string \<Rightarrow> item" where
  "dated s = empty_item\<lparr>pubDate := Some s\<rparr>"

definition sample_parse :: "string \<Rightarrow> int option" where
  "sample_parse =
     map_of
       [(''1970-01-01T00:00:00Z'', 0),
        (''1970-01-02T00:00:00Z'', 86400000),
        (''1970-01-03T00:00:00Z'', 172800000),
        (''1970-01-04T00:00:00Z'', 259200000),
        (''1970-01-05T00:00:00Z'', 345600000),
        (''1970-01-01T02:24:00Z'', 8640000),
        (''1970-01-01T04:48:00Z'', 17280000),
        (''1970-01-01T07:12:00Z'', 25920000)]"

definition sample_toLocaleString :: "int \<Rightarrow> string" where
  "sample_toLocaleString t =
     (if t = 345600000 then ''January 5, 1970 at 12:00 AM UTC'' else ''another date'')"

definition daily_items :: "item list" where
  "daily_items =
     [dated ''1970-01-03T00:00:00Z'', dated ''1970-01-01T00:00:00Z'',
      dated ''1970-01-05T00:00:00Z'', dated ''1970-01-02T00:00:00Z'',
      dated ''1970-01-04T00:00:00Z'']"

definition undated_items :: "item list" where
  "undated_items = [dated ''soon'', dated ''later'']"

text \<open>Four items a tenth of a day, 2 hours and 24 minutes, apart.\<close>

definition tenth_day_items :: "item list" where
  "tenth_day_items =
     [dated ''1970-01-01T00:00:00Z'', dated ''1970-01-01T02:24:00Z'',
      dated ''1970-01-01T04:48:00Z'', dated ''1970-01-01T07:12:00Z'']"

text \<open>
  An item with an inline image in its content only, as the parser returns the entry of
  the Atom document \<open>atom_xml\<close>; a valid feed whose two items have
  the same thumbnail, with the items as the parser returns them (a thumbnail element is
  an object that has its attributes under a key of their own, not a \<^verbatim>\<open>url\<close>
  property); and two valid documents whose only item is inside a comment, so that a
  parser finds no item, one with a thumbnail in the channel and one without.
\<close>

definition img_item :: item where
  \<open>img_item = empty_item\<lparr>title := Some ''a'', content := Some ''<p><img src="http://x/a.png"></p>''\<rparr>\<close>

definition atom_xml :: string where
  \<open>atom_xml =
     ''<feed xmlns="http://www.w3.org/2005/Atom"><title>T</title><id>i</id>'' @
     ''<updated>2024-01-01T00:00:00Z</updated><entry><title>a</title>'' @
     ''<content type="html">&lt;p&gt;&lt;img src="http://x/a.png"&gt;&lt;/p&gt;</content>'' @
     ''</entry></feed>''\<close>

definition img_feed :: feed where
  "img_feed = \<lparr>feed_title = Some ''T'', feed_items = [img_item]\<rparr>"

definition thumbs_xml :: string where
  \<open>thumbs_xml =
     ''<rss version="2.0"><channel><title>T</title><link>http://x</link>'' @
     ''<item><title>a</title><media:thumbnail url="http://x/t.jpg"/></item>'' @
     ''<item><title>b</title><media:thumbnail url="http://x/t.jpg"/></item>'' @
     ''</channel></rss>''\<close>

definition thumbs_feed :: feed where
  "thumbs_feed =
     \<lparr>feed_title = Some ''T'',
      feed_items =
        [empty_item\<lparr>title := Some ''a'', mediaThumbnail := Some (MediaObject None)\<rparr>,
         empty_item\<lparr>title := Some ''b'', mediaThumbnail := Some (MediaObject None)\<rparr>]\<rparr>"

definition no_items_xml :: string where
  \<open>no_items_xml =
     ''<rss version="2.0"><channel><title>T</title><link>http://x</link>'' @
     ''<media:thumbnail url="http://x/t.jpg"/>'' @
     ''<!--<item><title>old</title></item>-->'' @
     ''</channel></rss>''\<close>

definition no_items_feed :: feed where
  "no_items_feed = \<lparr>feed_title = Some ''T'', feed_items = []\<rparr>"

definition bare_xml :: string where
  \<open>bare_xml =
     ''<rss version="2.0"><channel><title>T</title><link>http://x</link>'' @
     ''<!--<item><title>old</title></item>-->'' @
     ''</channel></rss>''\<close>






section \<open>Properties of the temporal analyzer\<close>

lemma dates_step_parsed:
  "dates_step parse dates it = (case parsed_date parse it of None \<Rightarrow> dates | Some d \<Rightarrow> dates @ [d])"
  by (simp add: dates_step_def parsed_date_def split: option.splits)

lemma foldl_dates_step: "foldl (dates_step parse) acc items = acc @ parsable_dates parse items"
  by (induction items arbitrary: acc)
     (simp_all add: parsable_dates_def List.map_filter_simps dates_step_parsed split: option.splits)

lemma by_time_less: "by_time x y < 0 \<longleftrightarrow> x < y"
  by (simp add: by_time_def num_sub_def fl_less_zero_iff)

lemma mset_insert_by: "mset (insert_by cmp x ys) = add_mset x (mset ys)"
  by (induction ys) simp_all

lemma set_insert_by: "set (insert_by cmp x ys) = insert x (set ys)"
  by (induction ys) auto

lemma sorted_insert_by: "sorted ys \<Longrightarrow> sorted (insert_by by_time x ys)"
  by (induction ys) (auto simp: by_time_less set_insert_by)

lemma foldl_insert_by:
  "sorted acc \<Longrightarrow> sorted (foldl (\<lambda>s x. insert_by by_time x s) acc xs)
     \<and> mset (foldl (\<lambda>s x. insert_by by_time x s) acc xs) = mset acc + mset xs"
  by (induction xs arbitrary: acc) (simp_all add: sorted_insert_by mset_insert_by)

lemma Array_sort_by_time: "Array_sort by_time xs = sort xs"
proof -
  have "sorted (Array_sort by_time xs)" "mset (Array_sort by_time xs) = mset xs"
    using foldl_insert_by[of "[]" xs] by (simp_all add: Array_sort_def)
  then show ?thesis by (metis properties_for_sort)
qed

lemma sorted_last_Max:
  fixes ds :: "int list"
  assumes "sorted ds" and "ds \<noteq> []"
  shows "ds ! (length ds - 1) = Max (set ds)"
proof -
  have "Max (set ds) = ds ! (length ds - 1)"
  proof (rule Max_eqI)
    show "finite (set ds)" by simp
    show "ds ! (length ds - 1) \<in> set ds" using assms(2) by simp
    fix y assume "y \<in> set ds"
    then obtain i where "i < length ds" "ds ! i = y" by (auto simp: in_set_conv_nth)
    then show "y \<le> ds ! (length ds - 1)"
      using sorted_nth_mono[OF assms(1), of i "length ds - 1"] by auto
  qed
  then show ?thesis by simp
qed

lemma sorted_first_Min:
  fixes ds :: "int list"
  assumes "sorted ds" and "ds \<noteq> []"
  shows "ds ! 0 = Min (set ds)"
proof -
  have "Min (set ds) = ds ! 0"
  proof (rule Min_eqI)
    show "finite (set ds)" by simp
    show "ds ! 0 \<in> set ds" using assms(2) by simp
    fix y assume "y \<in> set ds"
    then obtain i where "i < length ds" "ds ! i = y" by (auto simp: in_set_conv_nth)
    then show "ds ! 0 \<le> y"
      using sorted_nth_mono[OF assms(1), of 0 i] by auto
  qed
  then show ?thesis by simp
qed

lemma length_parsable_dates: "length (parsable_dates parse items) \<le> length items"
  by (simp add: parsable_dates_def List.map_filter_def)

lemma frequency_label_rounded: "frequency_label d = rounded_label d"
  by (simp add: frequency_label_def rounded_label_def posts_per_def Let_def num_div_def
      Math_round_def)

lemma postFrequency_eq_rounded:
  "postFrequency parse items = postFrequency_rounded parse items"
proof -
  let ?ds = "parsable_dates parse items"
  have dates: "Array_sort by_time (foldl (dates_step parse) [] items) = sort ?ds"
    by (simp add: foldl_dates_step Array_sort_by_time)
  show ?thesis
  proof (cases "1 < length ?ds")
    case True
    then have items: "1 < length items"
      using length_parsable_dates[of parse items] by linarith
    have ne: "sort ?ds \<noteq> []" using True by (metis length_sort list.size(3) not_less_zero)
    have "sort ?ds ! (length ?ds - 1) = Max (set (sort ?ds))"
      using sorted_last_Max[of "sort ?ds"] ne by simp
    moreover have "sort ?ds ! 0 = Min (set (sort ?ds))"
      using sorted_first_Min[of "sort ?ds"] ne by simp
    ultimately show ?thesis
      using True items
      by (simp add: postFrequency_def postFrequency_rounded_def dates Let_def
          frequency_label_rounded num_sub_def num_div_def)
  next
    case False
    then show ?thesis
      by (simp add: postFrequency_def postFrequency_rounded_def dates Let_def)
  qed
qed

lemma mset_parsable_dates:
  "mset items = mset items' \<Longrightarrow> mset (parsable_dates parse items) = mset (parsable_dates parse items')"
proof -
  assume eq: "mset items = mset items'"
  have "mset (parsable_dates parse xs)
      = image_mset (the \<circ> parsed_date parse) (filter_mset (\<lambda>x. parsed_date parse x \<noteq> None) (mset xs))"
    for xs
    by (simp add: parsable_dates_def List.map_filter_def)
  then show ?thesis using eq by simp
qed

lemma latest_step_parsed:
  "latest_step parse acc it =
     (case parsed_date parse it of
        None \<Rightarrow> acc
      | Some d \<Rightarrow> (case acc of None \<Rightarrow> Some d | Some l \<Rightarrow> Some (max l d)))"
  by (auto simp: latest_step_def parsed_date_def max_def split: option.splits)

lemma parsable_dates_Cons:
  "parsable_dates parse (it # items) =
     (case parsed_date parse it of
        None \<Rightarrow> parsable_dates parse items
      | Some d \<Rightarrow> d # parsable_dates parse items)"
  by (simp add: parsable_dates_def List.map_filter_simps split: option.splits)


lemma foldl_latest_step:
  "foldl (latest_step parse) acc items =
     (case acc of
        None \<Rightarrow> if parsable_dates parse items = [] then None
                 else Some (Max (set (parsable_dates parse items)))
      | Some l \<Rightarrow> Some (Max (insert l (set (parsable_dates parse items)))))"
proof (induction items arbitrary: acc)
  case Nil
  then show ?case by (simp add: parsable_dates_def List.map_filter_simps split: option.splits)
next
  case (Cons it items)
  have unroll: "foldl (latest_step parse) acc (it # items)
      = foldl (latest_step parse) (latest_step parse acc it) items"
    by simp
  show ?case
  proof (cases "parsed_date parse it")
    case None
    then have "latest_step parse acc it = acc"
      and "parsable_dates parse (it # items) = parsable_dates parse items"
      by (simp_all add: latest_step_parsed parsable_dates_Cons)
    then show ?thesis unfolding unroll by (simp add: Cons.IH cong: option.case_cong)
  next
    case (Some d)
    show ?thesis
    proof (cases acc)
      case None
      then have "latest_step parse acc it = Some d"
        using Some by (simp add: latest_step_parsed)
      then show ?thesis using None Some unfolding unroll
        by (simp add: Cons.IH parsable_dates_Cons)
    next
      case (Some l)
      then have "latest_step parse acc it = Some (max l d)"
        using \<open>parsed_date parse it = Some d\<close> by (simp add: latest_step_parsed)
      moreover have "Max (insert (max l d) (set (parsable_dates parse items)))
          = Max (insert l (insert d (set (parsable_dates parse items))))"
        by (metis List.finite_set Max_insert Max_singleton finite.emptyI finite_insert insert_not_empty max.assoc)
      ultimately show ?thesis using Some \<open>parsed_date parse it = Some d\<close> unfolding unroll
        by (simp add: Cons.IH parsable_dates_Cons)
    qed
  qed
qed


lemma fl_values:
  "fl 345600000 = 345600000" "fl 4 = 4" "fl 1 = 1" "fl 7 = 7"
  "fl (1 / 10) = 3602879701896397 / 36028797018963968"
  by code_simp+

lemma string_of_nat_7: "string_of_nat 7 = ''7''"
  by code_simp

lemma daily_label:
  "rounded_label (fl (fl (fl (of_int t0 + 345600000 - of_int t0) / 86400000) / 4))
   = ''7 posts per week''"
proof -
  have "\<lfloor>(7::rat) + 1 / 2\<rfloor> = 7" by linarith
  then show ?thesis
    by (simp add: fl_values rounded_label_def posts_per_def string_of_nat_7)
qed

text \<open>
  C3, as the code has it. Five items whose timestamps all parse and lie exactly one day
  apart, in any order, average exactly one day between posts. One day is not below one
  day, so the label is counted per week: \<open>7 posts per week\<close>, not
  \<open>1 post per day\<close>.
\<close>

theorem postFrequency_daily:
  assumes "length items = 5"
    and "mset (parsable_dates parse items) = mset (map (\<lambda>k. t0 + int k * 86400000) [0..<5])"
  shows "postFrequency parse items = Some ''7 posts per week''"
proof -
  let ?ds = "parsable_dates parse items"
  have len: "length ?ds = 5"
    using assms(2) by (metis (no_types, lifting) length_map length_upt size_mset diff_zero)
  have "set ?ds = set (map (\<lambda>k. t0 + int k * 86400000) [0..<5])"
    using assms(2) by (rule mset_eq_setD)
  also have "\<dots> = {t0, t0 + 86400000, t0 + 172800000, t0 + 259200000, t0 + 345600000}"
    by (auto simp: upt_rec numeral_eq_Suc)
  finally have set: "set ?ds = {t0, t0 + 86400000, t0 + 172800000, t0 + 259200000, t0 + 345600000}" .
  have "Max (set ?ds) = t0 + 345600000" "Min (set ?ds) = t0"
    unfolding set by simp_all
  then show ?thesis
    using len daily_label[of t0]
    by (simp add: postFrequency_eq_rounded postFrequency_rounded_def Let_def)
qed

lemma parsable_daily:
  "parsable_dates sample_parse daily_items = [172800000, 0, 345600000, 86400000, 259200000]"
  by (simp add: parsable_dates_def List.map_filter_simps parsed_date_def daily_items_def dated_def
      empty_item_def Date_new_def sample_parse_def)

theorem postFrequency_daily_witness:
  "length daily_items = 5
   \<and> mset (parsable_dates sample_parse daily_items) = mset (map (\<lambda>k. 0 + int k * 86400000) [0..<5])
   \<and> postFrequency sample_parse daily_items = Some ''7 posts per week''"
proof -
  have a: "length daily_items = 5" by (simp add: daily_items_def)
  have b: "mset (parsable_dates sample_parse daily_items)
      = mset (map (\<lambda>k. 0 + int k * 86400000) [0..<5])"
    by (simp add: parsable_daily upt_rec numeral_eq_Suc)
  from postFrequency_daily [OF a b] a b show ?thesis by blast
qed

text \<open>
  C3 as the specification states it fails on five items dated 1 to 5 January 1970,
  midnight UTC.
\<close>

theorem postFrequency_daily_counterexample:
  "length daily_items = 5
   \<and> sort (parsable_dates sample_parse daily_items)
       = [0, 86400000, 172800000, 259200000, 345600000]
   \<and> postFrequency sample_parse daily_items = Some ''7 posts per week''
   \<and> postFrequency sample_parse daily_items \<noteq> Some ''1 post per day''"
proof -
  have "postFrequency sample_parse daily_items = Some ''7 posts per week''"
    using daily_label[of 0]
    by (simp add: postFrequency_eq_rounded postFrequency_rounded_def parsable_daily Let_def)
  moreover have "length daily_items = 5" by (simp add: daily_items_def)
  moreover have "sort (parsable_dates sample_parse daily_items)
      = [0, 86400000, 172800000, 259200000, 345600000]"
    by (simp add: parsable_daily)
  ultimately show ?thesis by simp
qed

text \<open>
  C4, as the code has it. The frequency estimate of the route is null with fewer than
  two parsable dates. Otherwise the parsable dates are sorted ascending, and the
  average \<open>d\<close> is the span between the earliest and the latest, divided by the
  milliseconds of a day and by the count less one, in the arithmetic of doubles: the
  difference and each quotient are rounded to the nearest double. The label is by the
  thresholds on that \<open>d\<close>, the first being the double nearest to 0.1, with the rounded
  quotient \<open>1/d\<close>, \<open>7/d\<close> or \<open>30/d\<close> rounded to an integer, in the singular or the
  plural. Rounding to a double is within one part in \<open>2^53\<close>, leaves the integers up to
  \<open>2^53\<close> as they are, and rounds a tie to the even neighbour.
\<close>

theorem postFrequency_in_doubles:
  "postFrequency parse items = postFrequency_rounded parse items
   \<and> (\<forall>x. \<bar>fl x - x\<bar> \<le> \<bar>x\<bar> / 2 ^ 53)
   \<and> (\<forall>n::int. \<bar>n\<bar> \<le> 2 ^ 53 \<longrightarrow> fl (of_int n) = of_int n)
   \<and> fl 9007199254740993 = 9007199254740992
   \<and> fl 9007199254740995 = 9007199254740996
   \<and> fl (1 / 10) = 3602879701896397 / 36028797018963968"
  using postFrequency_eq_rounded fl_relative_error fl_of_int fl_ties fl_values(5)
  by blast

lemma parsable_tenth_day:
  "parsable_dates sample_parse tenth_day_items = [0, 8640000, 17280000, 25920000]"
  by (simp add: parsable_dates_def List.map_filter_simps parsed_date_def tenth_day_items_def
      dated_def empty_item_def Date_new_def sample_parse_def)

lemma tenth_day_values:
  "fl 25920000 = 25920000"
  "fl (3 / 10) = 5404319552844595 / 18014398509481984"
  "fl (5404319552844595 / 54043195528445952) = 7205759403792793 / 72057594037927936"
  "string_of_nat 10 = ''10''"
  by code_simp+

lemma tenth_day_rounded:
  "postFrequency_rounded sample_parse tenth_day_items = Some ''Multiple posts per day''"
  by (simp add: postFrequency_rounded_def parsable_tenth_day Let_def tenth_day_values
      rounded_label_def fl_values)

theorem postFrequency_in_doubles_witness:
  "postFrequency sample_parse tenth_day_items = Some ''Multiple posts per day''
   \<and> \<bar>fl (1 / 10) - 1 / 10\<bar> \<le> \<bar>1 / 10\<bar> / 2 ^ 53
   \<and> \<bar>25920000 :: int\<bar> \<le> 2 ^ 53
   \<and> fl (of_int 25920000) = of_int 25920000"
proof -
  have a: "\<bar>25920000 :: int\<bar> \<le> 2 ^ 53" by simp
  note inst = postFrequency_in_doubles [of sample_parse tenth_day_items]
  have "postFrequency sample_parse tenth_day_items = Some ''Multiple posts per day''"
    using inst tenth_day_rounded by simp
  moreover have "\<bar>fl (1 / 10) - 1 / 10\<bar> \<le> \<bar>1 / 10\<bar> / 2 ^ 53"
    using inst by blast
  moreover have "fl (of_int 25920000) = of_int 25920000"
    using inst a by blast
  ultimately show ?thesis using a by blast
qed

text \<open>
  C4 as the specification states it fails on four items a tenth of a day apart. The
  exact average is 0.1 day, which is not below 0.1, and \<open>round(1/d)\<close> is 10. In
  doubles the span of 0.3 day rounds below 0.3 and its third below 0.1.
\<close>

theorem postFrequency_exact_counterexample:
  "sort (parsable_dates sample_parse tenth_day_items) = [0, 8640000, 17280000, 25920000]
   \<and> postFrequency_spec sample_parse tenth_day_items = Some ''10 posts per day''
   \<and> postFrequency sample_parse tenth_day_items = Some ''Multiple posts per day''"
proof -
  have "\<lfloor>(10::rat) + 1 / 2\<rfloor> = 10" by linarith
  then have "postFrequency_spec sample_parse tenth_day_items = Some ''10 posts per day''"
    by (simp add: postFrequency_spec_def parsable_tenth_day Let_def spec_label_def
        posts_per_def tenth_day_values)
  moreover have "postFrequency sample_parse tenth_day_items = Some ''Multiple posts per day''"
    by (simp add: postFrequency_eq_rounded tenth_day_rounded)
  ultimately show ?thesis by (simp add: parsable_tenth_day)
qed

lemma sort_parsable_dates:
  assumes "mset items = mset items'"
  shows "sort (parsable_dates parse items) = sort (parsable_dates parse items')"
  using mset_parsable_dates[OF assms, of parse]
  by (metis mset_sort properties_for_sort sorted_sort)

lemma lastUpdate_parsable:
  "parsable_dates parse items \<noteq> [] \<Longrightarrow>
     lastUpdate parse fmt items = Some (fmt (Max (set (parsable_dates parse items))))"
  by (cases items)
     (simp_all add: lastUpdate_def foldl_latest_step parsable_dates_def List.map_filter_simps
        del: foldl_Cons)

lemma lastUpdate_unparsable:
  "parsable_dates parse items = [] \<Longrightarrow>
     lastUpdate parse fmt items =
       (case items of [] \<Rightarrow> None
        | firstItem # rest \<Rightarrow> if truthy (pubDate firstItem) then pubDate firstItem else None)"
  by (cases items) (simp_all add: lastUpdate_def foldl_latest_step del: foldl_Cons)

text \<open>
  C5, as the code has it. Under every permutation of the items the frequency estimate is
  unchanged, and so is the last update as soon as one timestamp parses. When none
  parses, the last update is the raw timestamp of the first item (or null), which
  depends on the item that comes first.
\<close>

theorem temporal_order_independent:
  assumes "mset items = mset items'"
  shows "postFrequency parse items = postFrequency parse items'
    \<and> (parsable_dates parse items \<noteq> [] \<longrightarrow>
         lastUpdate parse fmt items = lastUpdate parse fmt items')
    \<and> (parsable_dates parse items = [] \<longrightarrow>
         lastUpdate parse fmt items =
           (case items of [] \<Rightarrow> None
            | firstItem # rest \<Rightarrow> if truthy (pubDate firstItem) then pubDate firstItem else None))"
proof -
  have s: "sort (parsable_dates parse items) = sort (parsable_dates parse items')"
    using assms by (rule sort_parsable_dates)
  have m: "mset (parsable_dates parse items) = mset (parsable_dates parse items')"
    using assms by (rule mset_parsable_dates)
  have "length items = length items'" using assms by (rule mset_eq_length)
  have pf: "postFrequency parse items = postFrequency parse items'"
    by (simp add: postFrequency_eq_rounded postFrequency_rounded_def s)
  have lu: "lastUpdate parse fmt items = lastUpdate parse fmt items'"
    if ne: "parsable_dates parse items \<noteq> []"
  proof -
    have "parsable_dates parse items' \<noteq> []" using m ne by (metis mset_zero_iff)
    moreover have "set (parsable_dates parse items) = set (parsable_dates parse items')"
      using m by (rule mset_eq_setD)
    ultimately show ?thesis using ne by (simp add: lastUpdate_parsable)
  qed
  show ?thesis using pf lu lastUpdate_unparsable by blast
qed

theorem temporal_order_independent_witness:
  "mset daily_items = mset (rev daily_items)
   \<and> parsable_dates sample_parse daily_items \<noteq> []
   \<and> postFrequency sample_parse daily_items = postFrequency sample_parse (rev daily_items)
   \<and> lastUpdate sample_parse sample_toLocaleString daily_items
       = lastUpdate sample_parse sample_toLocaleString (rev daily_items)
   \<and> mset undated_items = mset (rev undated_items)
   \<and> parsable_dates sample_parse undated_items = []
   \<and> lastUpdate sample_parse sample_toLocaleString undated_items = Some ''soon''"
proof -
  have a: "mset daily_items = mset (rev daily_items)" by simp
  have b: "parsable_dates sample_parse daily_items \<noteq> []" by (simp add: parsable_daily)
  have c: "mset undated_items = mset (rev undated_items)" by simp
  have d: "parsable_dates sample_parse undated_items = []"
    by (simp add: parsable_dates_def List.map_filter_simps parsed_date_def undated_items_def
        dated_def empty_item_def Date_new_def sample_parse_def)
  from temporal_order_independent [OF a, of sample_parse sample_toLocaleString]
    temporal_order_independent [OF c, of sample_parse sample_toLocaleString] a b c d
  show ?thesis by (simp add: undated_items_def dated_def empty_item_def)
qed

text \<open>
  C5 as the specification states it fails on two items whose timestamps do not parse:
  the last update is the raw string of whichever comes first.
\<close>

theorem lastUpdate_order_counterexample:
  "mset undated_items = mset (rev undated_items)
   \<and> lastUpdate sample_parse sample_toLocaleString undated_items = Some ''soon''
   \<and> lastUpdate sample_parse sample_toLocaleString (rev undated_items) = Some ''later''"
  by (simp add: lastUpdate_def latest_step_def undated_items_def dated_def empty_item_def
      Date_new_def sample_parse_def)

section \<open>Properties of the content classifier\<close>























section \<open>Properties of the image source analyzer\<close>

lemma count_mediaThumbnail_check_mediaContent [simp]:
  "count_mediaThumbnail (check_mediaContent st it) = count_mediaThumbnail st"
  by (simp add: check_mediaContent_def split: option.splits)

lemma count_mediaThumbnail_check_enclosure [simp]:
  "count_mediaThumbnail (check_enclosure st it) = count_mediaThumbnail st"
  by (simp add: check_enclosure_def split: option.splits)

lemma count_mediaThumbnail_check_imgTag [simp]:
  "count_mediaThumbnail (check_imgTag st body) = count_mediaThumbnail st"
  by (simp add: check_imgTag_def)

lemma count_mediaThumbnail_check_openGraph [simp]:
  "count_mediaThumbnail (check_openGraph st body) = count_mediaThumbnail st"
  by (simp add: check_openGraph_def)








lemma analyze_Inr:
  assumes "hasFeaturedImage (feed_items fd) = Inr featured"
    and "contentType (feed_items fd) = Inr kind"
    and "scan_images xmlContent (feed_items fd) = Inr scan"
  shows "analyze parse fmt xmlContent fd =
    Inr \<lparr>report_title = or_string (feed_title fd) ''Untitled Feed'',
         report_hasFeaturedImage = featured,
         report_contentType = kind,
         report_lastUpdate = lastUpdate parse fmt (feed_items fd),
         report_itemCount = length (feed_items fd),
         report_postFrequency = postFrequency parse (feed_items fd),
         report_duplicateGuids =
           (if length (duplicateGuids (feed_items fd)) > 0
            then Some (duplicateGuids (feed_items fd)) else None),
         report_missingFields =
           (if length (missingFields (feed_items fd)) > 0
            then Some (missingFields (feed_items fd)) else None),
         report_imageSources = image_sources.truncate scan,
         report_imageResolutions = imageResolutions (imageUrls scan)\<rparr>"
  using assms by (simp add: analyze_def Let_def)

lemma POST_Inr:
  "isValid (validateFeedXML xmlContent url) \<Longrightarrow> analyze parse fmt xmlContent fd = Inr a \<Longrightarrow>
     POST parse fmt xmlContent url (Inr fd) = Success a"
  by (simp add: POST_def)

lemma hasFeaturedImage_ignores_content:
  "hasFeaturedImage (map (\<lambda>it. it\<lparr>content := f it\<rparr>) items) = hasFeaturedImage items"
  by (induction items) (simp_all cong: sum.case_cong bool.case_cong)

lemma img_item_not_featured: "hasFeaturedImage [img_item] = Inr False"
  unfolding img_item_def empty_item_def by code_simp

lemma img_item_kind: "contentType [img_item] = Inr Unknown"
  unfolding img_item_def empty_item_def by code_simp

lemma img_item_scan:
  "\<exists>scan. scan_images atom_xml [img_item] = Inr scan \<and> count_imgTag scan = 1"
proof -
  have "case scan_images atom_xml [img_item] of Inl e \<Rightarrow> False | Inr scan \<Rightarrow> count_imgTag scan = 1"
    unfolding atom_xml_def img_item_def empty_item_def by code_simp
  then show ?thesis by (cases "scan_images atom_xml [img_item]") simp_all
qed

lemma atom_xml_valid: "isValid (validateFeedXML atom_xml url)"
  unfolding atom_xml_def by code_simp

text \<open>
  C9. The feed parsed from the valid Atom document \<open>atom_xml\<close> has one item, with an
  inline image in its \<^verbatim>\<open>content\<close> field and no other image signal. Its report has
  \<^verbatim>\<open>imageSources.imgTag = 1\<close> and \<^verbatim>\<open>hasFeaturedImage = false\<close>: the flag never
  reads the \<^verbatim>\<open>content\<close> field of an item.
\<close>

theorem img_in_content_not_featured:
  "description img_item = None \<and> contentEncoded img_item = None
   \<and> mediaContent img_item = None \<and> mediaThumbnail img_item = None
   \<and> enclosure img_item = None \<and> itemImage img_item = None
   \<and> feed_items img_feed = [img_item]
   \<and> (\<exists>a. analyze parse fmt atom_xml img_feed = Inr a
          \<and> POST parse fmt atom_xml url (Inr img_feed) = Success a
          \<and> count_imgTag (report_imageSources a) = 1
          \<and> report_hasFeaturedImage a = False)
   \<and> (\<forall>items f. hasFeaturedImage (map (\<lambda>it. it\<lparr>content := f it\<rparr>) items)
         = hasFeaturedImage items)"
proof -
  have fields: "description img_item = None \<and> contentEncoded img_item = None
    \<and> mediaContent img_item = None \<and> mediaThumbnail img_item = None
    \<and> enclosure img_item = None \<and> itemImage img_item = None
    \<and> feed_items img_feed = [img_item]"
    by (simp add: img_item_def empty_item_def img_feed_def)
  obtain scan where scan: "scan_images atom_xml [img_item] = Inr scan" "count_imgTag scan = 1"
    using img_item_scan by blast
  have items: "feed_items img_feed = [img_item]" by (simp add: img_feed_def)
  note a = analyze_Inr[of img_feed False Unknown atom_xml scan parse fmt,
      unfolded items, OF img_item_not_featured img_item_kind scan(1)]
  have "\<exists>a. analyze parse fmt atom_xml img_feed = Inr a
      \<and> POST parse fmt atom_xml url (Inr img_feed) = Success a
      \<and> count_imgTag (report_imageSources a) = 1
      \<and> report_hasFeaturedImage a = False"
    using a POST_Inr[OF atom_xml_valid a, of url] scan(2)
    by (simp add: image_sources.truncate_def)
  moreover have "\<forall>items f. hasFeaturedImage (map (\<lambda>it. it\<lparr>content := f it\<rparr>) items)
      = hasFeaturedImage items"
    by (simp add: hasFeaturedImage_ignores_content)
  ultimately show ?thesis using fields by (intro conjI) simp_all
qed

lemma imageResolutions_cap:
  "imageResolutions urls = (if urls = [] then None else Some (take 2 urls))"
  by (cases urls) (simp_all add: imageResolutions_def)

lemma thumbs_xml_valid: "isValid (validateFeedXML thumbs_xml url)"
  unfolding thumbs_xml_def by code_simp

lemma thumbs_featured: "hasFeaturedImage (feed_items thumbs_feed) = Inr True"
  unfolding thumbs_feed_def empty_item_def by code_simp

lemma thumbs_kind: "contentType (feed_items thumbs_feed) = Inr Unknown"
  unfolding thumbs_feed_def empty_item_def by code_simp

lemma thumbs_scan:
  "\<exists>scan. scan_images thumbs_xml (feed_items thumbs_feed) = Inr scan
     \<and> imageUrls scan = [''http://x/t.jpg'', ''http://x/t.jpg'']"
proof -
  have "case scan_images thumbs_xml (feed_items thumbs_feed) of
          Inl e \<Rightarrow> False
        | Inr scan \<Rightarrow> imageUrls scan = [''http://x/t.jpg'', ''http://x/t.jpg'']"
    unfolding thumbs_xml_def thumbs_feed_def empty_item_def by code_simp
  then show ?thesis by (cases "scan_images thumbs_xml (feed_items thumbs_feed)") simp_all
qed

text \<open>
  C6 fails on a valid feed whose two items carry the same thumbnail: the pass over the
  raw text pushes the URL of every \<^verbatim>\<open><media:thumbnail>\<close> tag without the check for a
  URL already listed that the passes over the parsed thumbnail, the enclosure and the
  inline image make, and the report lists the URL twice.
\<close>

theorem imageResolutions_repeats_url:
  "isValid (validateFeedXML thumbs_xml url)
   \<and> (\<exists>a. analyze parse fmt thumbs_xml thumbs_feed = Inr a
          \<and> POST parse fmt thumbs_xml url (Inr thumbs_feed) = Success a
          \<and> report_imageResolutions a = Some [''http://x/t.jpg'', ''http://x/t.jpg''])
   \<and> \<not> distinct [''http://x/t.jpg'', ''http://x/t.jpg'']"
proof -
  obtain scan where scan: "scan_images thumbs_xml (feed_items thumbs_feed) = Inr scan"
    "imageUrls scan = [''http://x/t.jpg'', ''http://x/t.jpg'']"
    using thumbs_scan by blast
  note a = analyze_Inr[OF thumbs_featured thumbs_kind scan(1), of parse fmt]
  show ?thesis
    using a POST_Inr[OF thumbs_xml_valid a, of url] scan(2) thumbs_xml_valid[of url]
    by (simp add: imageResolutions_cap)
qed

section \<open>Properties of the report\<close>

lemma scan_images_Nil: "scan_images xmlContent [] = Inr (thumbnail_prepass xmlContent)"
  by (simp add: scan_images_def)

lemma imageUrls_prepass:
  "imageUrls (thumbnail_prepass xmlContent)
     = thumbnail_urls (regex_matchAll (tag_open ''<media:thumbnail'') xmlContent)"
  by (simp add: thumbnail_prepass_def Let_def thumbnail_urls_def List.map_filter_simps)

lemma analyze_no_items:
  assumes "feed_items fd = []"
  shows "analyze parse fmt xmlContent fd =
    Inr \<lparr>report_title = or_string (feed_title fd) ''Untitled Feed'',
         report_hasFeaturedImage = False,
         report_contentType = Unknown,
         report_lastUpdate = None,
         report_itemCount = 0,
         report_postFrequency = None,
         report_duplicateGuids = None,
         report_missingFields = None,
         report_imageSources = image_sources.truncate (thumbnail_prepass xmlContent),
         report_imageResolutions =
           imageResolutions
             (thumbnail_urls (regex_matchAll (tag_open ''<media:thumbnail'') xmlContent))\<rparr>"
  using assms
  by (simp add: analyze_def Let_def contentType_def lastUpdate_def postFrequency_def
      duplicateGuids_def missingFields_def scan_images_Nil imageUrls_prepass)

text \<open>
  C10, as the code has it. For a raw document that passes validation and a parsed feed
  with no item, the report is valid, with content type unknown, last update and post
  frequency null, item count 0, no featured image, and no \<^verbatim>\<open>duplicateGuids\<close> and
  \<^verbatim>\<open>missingFields\<close>. \<^verbatim>\<open>imageResolutions\<close> is left out exactly when the raw text
  has no \<^verbatim>\<open><media:thumbnail ...>\<close> tag with a quoted \<^verbatim>\<open>url\<close>; otherwise it lists the
  first two such URLs.
\<close>

theorem empty_feed_report:
  assumes "isValid (validateFeedXML xmlContent url)" and "feed_items fd = []"
  shows "report_isValid (POST parse fmt xmlContent url (Inr fd))
    \<and> (\<exists>a. analyze parse fmt xmlContent fd = Inr a
          \<and> POST parse fmt xmlContent url (Inr fd) = Success a
          \<and> report_contentType a = Unknown
          \<and> report_lastUpdate a = None
          \<and> report_postFrequency a = None
          \<and> report_itemCount a = 0
          \<and> report_hasFeaturedImage a = False
          \<and> report_duplicateGuids a = None
          \<and> report_missingFields a = None
          \<and> (report_imageResolutions a = None)
              = (thumbnail_urls (regex_matchAll (tag_open ''<media:thumbnail'') xmlContent) = [])
          \<and> report_imageResolutions a
              = imageResolutions
                  (thumbnail_urls (regex_matchAll (tag_open ''<media:thumbnail'') xmlContent)))"
proof -
  note a = analyze_no_items[OF assms(2), of parse fmt xmlContent]
  note post = POST_Inr[OF assms(1) a]
  show ?thesis
    unfolding post a by (simp add: imageResolutions_cap)
qed

lemma bare_xml_valid: "isValid (validateFeedXML bare_xml ''http://x/feed'')"
  unfolding bare_xml_def by code_simp

lemma bare_xml_thumbnails:
  "thumbnail_urls (regex_matchAll (tag_open ''<media:thumbnail'') bare_xml) = []"
  unfolding bare_xml_def by code_simp

lemma bare_xml_prepass:
  "image_sources.truncate (thumbnail_prepass bare_xml)
     = \<lparr>count_mediaContent = 0, count_mediaThumbnail = 0, count_enclosure = 0,
        count_imgTag = 0, count_openGraph = 0\<rparr>"
proof -
  have "regex_matchAll (tag_open ''<media:thumbnail'') bare_xml = []"
    unfolding bare_xml_def by code_simp
  then show ?thesis by (simp add: thumbnail_prepass_def image_sources.truncate_def)
qed

text \<open>
  C10 on a valid document whose only item is commented out: the whole report.
\<close>

theorem empty_feed_report_witness:
  "isValid (validateFeedXML bare_xml ''http://x/feed'')
   \<and> feed_items no_items_feed = []
   \<and> report_isValid
       (POST sample_parse sample_toLocaleString bare_xml ''http://x/feed'' (Inr no_items_feed))
   \<and> POST sample_parse sample_toLocaleString bare_xml ''http://x/feed'' (Inr no_items_feed)
       = Success
           \<lparr>report_title = ''T'', report_hasFeaturedImage = False, report_contentType = Unknown,
            report_lastUpdate = None, report_itemCount = 0, report_postFrequency = None,
            report_duplicateGuids = None, report_missingFields = None,
            report_imageSources =
              \<lparr>count_mediaContent = 0, count_mediaThumbnail = 0, count_enclosure = 0,
               count_imgTag = 0, count_openGraph = 0\<rparr>,
            report_imageResolutions = None\<rparr>"
proof -
  have b: "feed_items no_items_feed = []" by (simp add: no_items_feed_def)
  have t: "or_string (feed_title no_items_feed) ''Untitled Feed'' = ''T''"
    by (simp add: no_items_feed_def)
  obtain a where a:
    "analyze sample_parse sample_toLocaleString bare_xml no_items_feed = Inr a
     \<and> POST sample_parse sample_toLocaleString bare_xml ''http://x/feed'' (Inr no_items_feed)
         = Success a
     \<and> report_contentType a = Unknown
     \<and> report_lastUpdate a = None
     \<and> report_postFrequency a = None
     \<and> report_itemCount a = 0
     \<and> report_hasFeaturedImage a = False
     \<and> report_duplicateGuids a = None
     \<and> report_missingFields a = None
     \<and> (report_imageResolutions a = None)
         = (thumbnail_urls (regex_matchAll (tag_open ''<media:thumbnail'') bare_xml) = [])
     \<and> report_imageResolutions a
         = imageResolutions
             (thumbnail_urls (regex_matchAll (tag_open ''<media:thumbnail'') bare_xml))"
    using empty_feed_report [OF bare_xml_valid b, of sample_parse sample_toLocaleString,
        THEN conjunct2] ..
  have valid: "report_isValid
      (POST sample_parse sample_toLocaleString bare_xml ''http://x/feed'' (Inr no_items_feed))"
    using empty_feed_report [OF bare_xml_valid b, of sample_parse sample_toLocaleString]
    by (rule conjunct1)
  have "Inr a = analyze sample_parse sample_toLocaleString bare_xml no_items_feed"
    using a by simp
  then have rest: "report_title a = ''T''"
    "report_imageSources a
       = \<lparr>count_mediaContent = 0, count_mediaThumbnail = 0, count_enclosure = 0,
          count_imgTag = 0, count_openGraph = 0\<rparr>"
    unfolding analyze_no_items[OF b] by (auto simp: t bare_xml_prepass)
  have "a = \<lparr>report_title = ''T'', report_hasFeaturedImage = False, report_contentType = Unknown,
            report_lastUpdate = None, report_itemCount = 0, report_postFrequency = None,
            report_duplicateGuids = None, report_missingFields = None,
            report_imageSources =
              \<lparr>count_mediaContent = 0, count_mediaThumbnail = 0, count_enclosure = 0,
               count_imgTag = 0, count_openGraph = 0\<rparr>,
            report_imageResolutions = None\<rparr>"
    using a rest bare_xml_thumbnails by (cases a) simp
  then show ?thesis using a valid bare_xml_valid b by simp
qed

text \<open>
  C10 as the specification states it fails on a valid document whose only item is
  commented out and whose channel has a thumbnail.
\<close>

lemma no_items_xml_valid: "isValid (validateFeedXML no_items_xml ''http://x/feed'')"
  unfolding no_items_xml_def by code_simp

lemma no_items_xml_matches:
  \<open>regex_matchAll (tag_open ''<media:thumbnail'') no_items_xml
     = [''<media:thumbnail url="http://x/t.jpg"/>'']\<close>
  unfolding no_items_xml_def by code_simp

lemma no_items_xml_urls:
  \<open>thumbnail_urls [''<media:thumbnail url="http://x/t.jpg"/>''] = [''http://x/t.jpg'']\<close>
  by code_simp

theorem empty_feed_imageResolutions_counterexample:
  "isValid (validateFeedXML no_items_xml ''http://x/feed'')
   \<and> feed_items no_items_feed = []
   \<and> POST sample_parse sample_toLocaleString no_items_xml ''http://x/feed'' (Inr no_items_feed)
       = Success
           \<lparr>report_title = ''T'', report_hasFeaturedImage = False, report_contentType = Unknown,
            report_lastUpdate = None, report_itemCount = 0, report_postFrequency = None,
            report_duplicateGuids = None, report_missingFields = None,
            report_imageSources =
              \<lparr>count_mediaContent = 0, count_mediaThumbnail = 1, count_enclosure = 0,
               count_imgTag = 0, count_openGraph = 0\<rparr>,
            report_imageResolutions = Some [''http://x/t.jpg'']\<rparr>"
proof -
  have b: "feed_items no_items_feed = []" by (simp add: no_items_feed_def)
  have t: "or_string (feed_title no_items_feed) ''Untitled Feed'' = ''T''"
    by (simp add: no_items_feed_def)
  have s: "image_sources.truncate (thumbnail_prepass no_items_xml)
      = \<lparr>count_mediaContent = 0, count_mediaThumbnail = 1, count_enclosure = 0,
         count_imgTag = 0, count_openGraph = 0\<rparr>"
    by (simp add: thumbnail_prepass_def image_sources.truncate_def no_items_xml_matches)
  note a = analyze_no_items[OF b, of sample_parse sample_toLocaleString no_items_xml,
      unfolded t s no_items_xml_matches no_items_xml_urls]
  show ?thesis
    using POST_Inr[OF no_items_xml_valid a] no_items_xml_valid b
    by (simp add: imageResolutions_cap)
qed

end
